theory Spec2Isabelle
  imports Complex_Main "HOL-Library.Signed_Division"
begin

section \<open>JavaScript numbers and operators\<close>

text \<open>
  The library is TypeScript; every quantity is a JavaScript number.  The embedding
  idealises them: integral quantities (trits, phase counts, years, millisecond time
  values) are \<^typ>\<open>int\<close>, angles are \<^typ>\<open>real\<close>.  Rounding of doubles, infinities and
  \<open>NaN\<close> are outside the model, with one exception: where the code reads an element
  an array may lack, the missing element and what follows from it are written out.

  The remainder operator \<open>%\<close> takes the sign of the dividend.  On integers it is
  \<^term>\<open>(smod)\<close>; on reals it is \<open>js_mod\<close> below.  \<open>Math.floor\<close> is \<^term>\<open>floor\<close>,
  \<open>Math.round\<close> rounds halves towards plus infinity.
\<close>

definition js_trunc :: "real \<Rightarrow> int" where
  "js_trunc x = (if 0 \<le> x then \<lfloor>x\<rfloor> else \<lceil>x\<rceil>)"

definition js_mod :: "real \<Rightarrow> real \<Rightarrow> real" where
  "js_mod x y = x - y * of_int (js_trunc (x / y))"

text \<open>The floored modulo, whose result is never negative for a positive divisor.\<close>

definition floor_mod :: "real \<Rightarrow> real \<Rightarrow> real" where
  "floor_mod x y = x - y * of_int \<lfloor>x / y\<rfloor>"

definition Math_round :: "real \<Rightarrow> int" where
  "Math_round x = \<lfloor>x + 1 / 2\<rfloor>"

text \<open>Reading \<open>xs[i]\<close>: an index outside the array yields \<open>undefined\<close>, here \<open>None\<close>.\<close>

definition js_index :: "'a list \<Rightarrow> int \<Rightarrow> 'a option" where
  "js_index xs i = (if 0 \<le> i \<and> i < int (length xs) then Some (xs ! nat i) else None)"

text \<open>
  What the code can raise: the explicit \<open>throw new Error(`Invalid conversion: ...`)\<close> of
  \<open>convertTrit\<close>, and the \<open>TypeError\<close> of reading a property of \<open>undefined\<close>.
\<close>

datatype error = InvalidConversion | TypeError

section \<open>Ternary operations (core/ternary-astro.ts)\<close>

datatype Representation = A | B | C

record TernaryValue =
  tv_value :: int
  tv_representation :: Representation
  tv_meaning :: string

record ConversionResult =
  original :: TernaryValue
  converted :: TernaryValue
  bijection :: string

definition getTritMeaning :: "int \<Rightarrow> Representation \<Rightarrow> string" where
  "getTritMeaning v r =
     (case r of
        A \<Rightarrow> (if v = - 1 then ''False'' else if v = 0 then ''Neutral'' else ''True'')
      | B \<Rightarrow> (if v = 0 then ''False'' else if v = 1 then ''Neutral'' else ''True'')
      | C \<Rightarrow> (if v = 1 then ''False'' else if v = 2 then ''Neutral'' else ''True''))"

text \<open>
  \<open>convertTrit\<close> keeps the source's chain of tests, its last branch included: the
  \<open>throw\<close> is the value \<open>Inl InvalidConversion\<close>.
\<close>

definition convertTrit_shift :: "int \<Rightarrow> Representation \<Rightarrow> Representation \<Rightarrow> error + int \<times> string" where
  "convertTrit_shift v from to =
     (if from = to then Inr (v, ''identity'')
      else if from = A \<and> to = B then Inr (v + 1, ''f(a) = a + 1'')
      else if from = A \<and> to = C then Inr (v + 2, ''f(a) = a + 2'')
      else if from = B \<and> to = A then Inr (v - 1, ''f(b) = b - 1'')
      else if from = B \<and> to = C then Inr (v + 1, ''f(b) = b + 1'')
      else if from = C \<and> to = A then Inr (v - 2, ''f(c) = c - 2'')
      else if from = C \<and> to = B then Inr (v - 1, ''f(c) = c - 1'')
      else Inl InvalidConversion)"

definition convertTrit :: "int \<Rightarrow> Representation \<Rightarrow> Representation \<Rightarrow> error + ConversionResult" where
  "convertTrit v from to =
     (case convertTrit_shift v from to of
        Inl e \<Rightarrow> Inl e
      | Inr (c, b) \<Rightarrow>
          Inr \<lparr> original = \<lparr> tv_value = v, tv_representation = from,
                              tv_meaning = getTritMeaning v from \<rparr>,
                converted = \<lparr> tv_value = c, tv_representation = to,
                               tv_meaning = getTritMeaning c to \<rparr>,
                bijection = b \<rparr>)"

text \<open>The digit range each representation tag stands for (types \<open>TritA\<close>, \<open>TritB\<close>, \<open>TritC\<close>).\<close>

definition validTrit :: "Representation \<Rightarrow> int \<Rightarrow> bool" where
  "validTrit r v =
     (case r of A \<Rightarrow> - 1 \<le> v \<and> v \<le> 1 | B \<Rightarrow> 0 \<le> v \<and> v \<le> 2 | C \<Rightarrow> 1 \<le> v \<and> v \<le> 3)"

text \<open>
  \<open>toBijectiveTernary\<close>: the \<open>while (num > 0)\<close> loop, with \<open>digits.unshift\<close> as consing
  at the front.
\<close>

function toBijectiveTernary_loop :: "int \<Rightarrow> int list \<Rightarrow> int list" where
  "toBijectiveTernary_loop num digits =
     (if num > 0 then
        (let remainder = num smod 3 in
         if remainder = 0 then toBijectiveTernary_loop (num div 3 - 1) (3 # digits)
         else toBijectiveTernary_loop (num div 3) (remainder # digits))
      else digits)"
  by pat_completeness auto
termination
  by (relation "measure (\<lambda>(num, digits). nat num)") auto

declare toBijectiveTernary_loop.simps [simp del]

definition toBijectiveTernary :: "int \<Rightarrow> int list" where
  "toBijectiveTernary n = (if n \<le> 0 then [1] else toBijectiveTernary_loop n [])"

definition fromBijectiveTernary :: "int list \<Rightarrow> int" where
  "fromBijectiveTernary digits = foldl (\<lambda>result d. result * 3 + d) 0 digits"

section \<open>Constants (core/constants.ts)\<close>

definition PRIME_CIRCLE :: real where "PRIME_CIRCLE = 364"
definition PHASE_SIZE :: real where "PHASE_SIZE = 28"
definition NUM_PHASES :: int where "NUM_PHASES = 13"
definition EPSILON :: real where "EPSILON = 1 / 10 ^ 9"

text \<open>\<open>RESONANCE_TYPES\<close>, an object keyed \<open>0\<close>, \<open>1\<close>, \<open>2\<close>.\<close>

definition RESONANCE_TYPES :: "string list" where
  "RESONANCE_TYPES =
     [''Completion (Return to Source)'', ''Initiation (New Beginning)'',
      ''Manifestation (Creative Expression)'']"

definition HOUSE_NAMES :: "string list" where
  "HOUSE_NAMES =
     [''Prima'', ''Vector Prime'', ''Solus Prime'', ''Liege Maximo'', ''Alpha Trion'',
      ''Micronus Prime'', ''Nexus Prime'', ''Alchemist Prime'', ''Onyx Prime'',
      ''Amalgamous Prime'', ''Quintus Prime'', ''The Fallen'', ''Optimus Prime'']"

text \<open>
  An \<open>AspectConfig\<close>; the \<open>symbol\<close> field (a display glyph) is left out.  \<open>ASPECT_TYPES\<close>
  is an object literal with string keys, which \<open>Object.entries\<close> lists in the order
  written, so it is an association list in that order.
\<close>

record AspectConfig =
  angle :: real
  orb :: real
  nature :: string
  power :: int
  harmonic :: int
  phaseCount :: int
  gf3 :: int
  ternaryResonance :: string

definition mkAspect ::
  "real \<Rightarrow> real \<Rightarrow> string \<Rightarrow> int \<Rightarrow> int \<Rightarrow> int \<Rightarrow> int \<Rightarrow> string \<Rightarrow> AspectConfig" where
  "mkAspect a ob n p h pc g tr =
     \<lparr> angle = a, orb = ob, nature = n, power = p, harmonic = h, phaseCount = pc,
       gf3 = g, ternaryResonance = tr \<rparr>"

definition ASPECT_TYPES :: "(string \<times> AspectConfig) list" where
  "ASPECT_TYPES =
     [(''conjunction'', mkAspect 0 8 ''fusion'' 10 1 0 0 ''Completion''),
      (''opposition'', mkAspect 182 8 ''tension'' 9 2 6 0 ''Completion''),
      (''trine'', mkAspect (121333 / 1000) 6 ''harmony'' 8 3 4 1 ''Initiation''),
      (''square'', mkAspect 91 6 ''challenge'' 8 4 3 0 ''Completion''),
      (''sextile'', mkAspect (60667 / 1000) 4 ''opportunity'' 6 6 2 2 ''Manifestation''),
      (''quintile'', mkAspect (728 / 10) 3 ''creative'' 5 5 3 0 ''Completion''),
      (''septile'', mkAspect 52 2 ''mystical'' 4 7 2 2 ''Manifestation''),
      (''novile'', mkAspect (40444 / 1000) 2 ''evolutionary'' 4 9 1 1 ''Initiation''),
      (''tredecile'', mkAspect 28 2 ''phase-resonance'' 7 13 1 1 ''Initiation''),
      (''quincunx'', mkAspect (151667 / 1000) 3 ''adjustment'' 5 0 5 2 ''Manifestation'')]"

text \<open>The legacy table \<open>ASPECT_TYPES_360\<close>: name, angle, orb.\<close>

definition ASPECT_TYPES_360 :: "(string \<times> real \<times> real) list" where
  "ASPECT_TYPES_360 =
     [(''conjunction'', 0, 8), (''opposition'', 180, 8), (''trine'', 120, 6),
      (''square'', 90, 6), (''sextile'', 60, 4), (''quincunx'', 150, 3)]"

section \<open>Coordinate conversions (core/conversions.ts)\<close>

definition tropicalToPrime :: "real \<Rightarrow> real" where
  "tropicalToPrime tropicalDegree =
     (let normalized360 = js_mod (js_mod tropicalDegree 360 + 360) 360;
          prime = normalized360 * PRIME_CIRCLE / 360;
          prime = (if \<bar>prime - PRIME_CIRCLE\<bar> < EPSILON then 0 else prime)
      in js_mod (js_mod prime PRIME_CIRCLE + PRIME_CIRCLE) PRIME_CIRCLE)"

definition getPrimeCusps :: "real \<Rightarrow> real list" where
  "getPrimeCusps tropicalAscendant =
     (let ascPrime = tropicalToPrime tropicalAscendant
      in map (\<lambda>i. js_mod (js_mod (ascPrime + real i * PHASE_SIZE) PRIME_CIRCLE + PRIME_CIRCLE)
                     PRIME_CIRCLE) [0 ..< nat NUM_PHASES])"

text \<open>
  A \<open>HouseResult\<close>.  With an empty cusp array \<open>houseCusps[0]\<close> is \<open>undefined\<close> and the
  arithmetic yields \<open>NaN\<close>: the house number is then \<open>None\<close>, the name is the fallback
  string built from it, and the comparison with 13 is false.  Nothing is raised.
\<close>

record HouseResult =
  house :: "int option"
  houseName :: string
  alsoIn13th :: bool
  primeDegree :: real

function show_nat :: "nat \<Rightarrow> string" where
  "show_nat n =
     (if n < 10 then [char_of (48 + n)] else show_nat (n div 10) @ [char_of (48 + n mod 10)])"
  by pat_completeness auto
termination
  by (relation "measure (\<lambda>n. n)") auto

declare show_nat.simps [simp del]

definition show_int :: "int \<Rightarrow> string" where
  "show_int i = (if i < 0 then CHR ''-'' # show_nat (nat (- i)) else show_nat (nat i))"

definition getHouseFromDegree :: "real \<Rightarrow> real list \<Rightarrow> HouseResult" where
  "getHouseFromDegree degree houseCusps =
     (let primeDegree = tropicalToPrime degree in
      case houseCusps of
        [] \<Rightarrow> \<lparr> house = None, houseName = ''House NaN'', alsoIn13th = False,
                 primeDegree = primeDegree \<rparr>
      | cusp0 # _ \<Rightarrow>
          (let ascendantPrime = tropicalToPrime cusp0;
               relativePos = js_mod (js_mod (primeDegree - ascendantPrime) PRIME_CIRCLE
                                      + PRIME_CIRCLE) PRIME_CIRCLE;
               houseIndex = \<lfloor>relativePos / PHASE_SIZE\<rfloor>;
               houseIndex = (if houseIndex \<ge> NUM_PHASES then NUM_PHASES - 1 else houseIndex)
           in \<lparr> house = Some (houseIndex + 1),
                houseName = (case js_index HOUSE_NAMES houseIndex of
                               Some n \<Rightarrow> n
                             | None \<Rightarrow> ''House '' @ show_int (houseIndex + 1)),
                alsoIn13th = (houseIndex + 1 = 13),
                primeDegree = primeDegree \<rparr>))"

definition isIn13thHouse :: "real \<Rightarrow> real list \<Rightarrow> bool" where
  "isIn13thHouse degree houseCusps =
     (if int (length houseCusps) < NUM_PHASES then False
      else
        (let primeDegree = tropicalToPrime degree;
             ascendantPrime = tropicalToPrime (hd houseCusps);
             relativePos = js_mod (js_mod (primeDegree - ascendantPrime) PRIME_CIRCLE
                                    + PRIME_CIRCLE) PRIME_CIRCLE;
             house13Start = 12 * PHASE_SIZE;
             house13End = 13 * PHASE_SIZE
         in relativePos \<ge> house13Start \<and> relativePos < house13End))"

section \<open>Aspects (core/aspects.ts, core/ternary-astro.ts)\<close>

text \<open>
  The \<open>ternary\<close> part of an \<open>AspectResult\<close>.  \<open>bijectiveNotation\<close> is kept as the digit
  list of \<open>toBijectiveTernary\<close>; the source joins the digits into a string and appends a
  fixed subscript suffix.
\<close>

record AspectTernary =
  t_phaseCount :: int
  t_gf3 :: int
  t_resonance :: string
  t_bijectiveNotation :: "int list"

record AspectResult =
  r_type :: string
  r_exact :: real
  r_orb :: real
  r_harmonic :: int
  r_ternary :: "AspectTernary option"

text \<open>The separation of the two positions on the 364 ring, folded into the shorter arc.\<close>

definition separation364 :: "real \<Rightarrow> real \<Rightarrow> real" where
  "separation364 degree1 degree2 =
     (let prime1 = tropicalToPrime degree1;
          prime2 = tropicalToPrime degree2;
          diff = js_mod \<bar>prime1 - prime2\<bar> PRIME_CIRCLE
      in if diff > PRIME_CIRCLE / 2 then PRIME_CIRCLE - diff else diff)"

text \<open>
  The loop \<open>for (const [type, config] of Object.entries(ASPECT_TYPES))\<close>: the test of one
  entry, the object returned for it, and the scan in the order of the entries.
\<close>

definition aspect_match :: "real \<Rightarrow> string \<times> AspectConfig \<Rightarrow> bool" where
  "aspect_match diff e = (\<bar>diff - angle (snd e)\<bar> \<le> orb (snd e))"

definition aspect_result :: "real \<Rightarrow> string \<times> AspectConfig \<Rightarrow> AspectResult" where
  "aspect_result diff e =
     \<lparr> r_type = fst e, r_exact = angle (snd e), r_orb = \<bar>diff - angle (snd e)\<bar>,
       r_harmonic = harmonic (snd e),
       r_ternary = Some \<lparr> t_phaseCount = phaseCount (snd e), t_gf3 = gf3 (snd e),
                           t_resonance = ternaryResonance (snd e),
                           t_bijectiveNotation = toBijectiveTernary (phaseCount (snd e)) \<rparr> \<rparr>"

fun aspect_loop :: "real \<Rightarrow> (string \<times> AspectConfig) list \<Rightarrow> AspectResult option" where
  "aspect_loop diff [] = None"
| "aspect_loop diff (e # rest) =
     (if aspect_match diff e then Some (aspect_result diff e) else aspect_loop diff rest)"

fun aspect_loop_360 :: "real \<Rightarrow> (string \<times> real \<times> real) list \<Rightarrow> AspectResult option" where
  "aspect_loop_360 diff [] = None"
| "aspect_loop_360 diff ((type, config_angle, config_orb) # rest) =
     (let orbDiff = \<bar>diff - config_angle\<bar> in
      if orbDiff \<le> config_orb then
        Some \<lparr> r_type = type, r_exact = config_angle, r_orb = orbDiff, r_harmonic = 0,
               r_ternary = None \<rparr>
      else aspect_loop_360 diff rest)"

definition calculateAspect :: "real \<Rightarrow> real \<Rightarrow> bool \<Rightarrow> AspectResult option" where
  "calculateAspect degree1 degree2 use364 =
     (if use364 then aspect_loop (separation364 degree1 degree2) ASPECT_TYPES
      else aspect_loop_360 \<bar>js_mod (degree1 - degree2 + 180) 360 - 180\<bar> ASPECT_TYPES_360)"

text \<open>
  \<open>getAspectTernarySignature\<close>, the fields computed from the angle: the phase count, its
  residue, the resonance label and the resonance triple.  The string renderings and the
  information density (a logarithm) are left out.
\<close>

record AspectTernarySignature =
  s_phaseCount :: int
  s_gf3 :: int
  s_resonance :: "string option"
  s_resonanceTriple :: "int \<times> int \<times> int"

definition getAspectTernarySignature :: "real \<Rightarrow> AspectTernarySignature" where
  "getAspectTernarySignature ang =
     (let phaseCount = Math_round (ang / PHASE_SIZE);
          mod3 = phaseCount smod 3
      in \<lparr> s_phaseCount = phaseCount, s_gf3 = mod3,
           s_resonance = js_index RESONANCE_TYPES mod3,
           s_resonanceTriple =
             ((if mod3 = 0 then 0 else if mod3 = 1 then 1 else - 1), mod3,
              (if mod3 = 0 then 3 else mod3)) \<rparr>)"

section \<open>Dates of the JavaScript runtime\<close>

text \<open>
  A \<open>Date\<close> holds a time value: an integral number of milliseconds since
  1970-01-01T00:00:00Z of magnitude at most 8.64e15, or \<open>NaN\<close> (an invalid date).  A
  number that may be \<open>NaN\<close> is an \<^typ>\<open>int option\<close> here, \<open>None\<close> standing for \<open>NaN\<close>; a
  comparison with \<open>NaN\<close> is false and arithmetic on \<open>NaN\<close> gives \<open>NaN\<close>.

  \<open>getUTCFullYear\<close> and \<open>Date.UTC\<close> follow ECMA-262: \<open>Day\<close>, \<open>DayFromYear\<close>,
  \<open>DaysInYear\<close>, \<open>YearFromTime\<close> (the largest year whose first day is not after the
  time), \<open>MakeDay\<close>, the rule of \<open>Date.UTC\<close> that a year argument from 0 to 99 means
  1900 plus that year, and \<open>TimeClip\<close>, which turns a time beyond the range into \<open>NaN\<close>.
\<close>

definition msPerDay :: int where "msPerDay = 86400000"

definition Day :: "int \<Rightarrow> int" where
  "Day t = t div msPerDay"

definition DaysInYear :: "int \<Rightarrow> int" where
  "DaysInYear y =
     (if y mod 4 \<noteq> 0 then 365 else if y mod 100 \<noteq> 0 then 366
      else if y mod 400 \<noteq> 0 then 365 else 366)"

definition DayFromYear :: "int \<Rightarrow> int" where
  "DayFromYear y =
     365 * (y - 1970) + (y - 1969) div 4 - (y - 1901) div 100 + (y - 1601) div 400"

text \<open>
  \<open>YearFromTime\<close> by search from an estimate: go down while the year begins after the
  day, go up while the next year has begun.  Successive years begin at least 364 days
  apart, which bounds the search.
\<close>

function year_search :: "int \<Rightarrow> int \<Rightarrow> int" where
  "year_search y d =
     (if d < DayFromYear y then year_search (y - 1) d
      else if DayFromYear (y + 1) \<le> d then year_search (y + 1) d
      else y)"
  by pat_completeness auto
termination
proof (relation "measure (\<lambda>(y, d). nat (if d < DayFromYear y then DayFromYear y - d
                                         else d + 1 - DayFromYear (y + 1)))")
  have up: "DayFromYear y < DayFromYear (y + 1)" for y
  proof -
    have a: "(y - 1969) div 4 \<le> (y - 1968) div 4" by (rule zdiv_mono1) simp_all
    have "(y - 1900) div 100 \<le> (y - 1901 + 100) div 100" by (rule zdiv_mono1) simp_all
    then have b: "(y - 1900) div 100 \<le> (y - 1901) div 100 + 1" by simp
    have c: "(y - 1601) div 400 \<le> (y - 1600) div 400" by (rule zdiv_mono1) simp_all
    show ?thesis unfolding DayFromYear_def using a b c by simp
  qed
  show "wf (measure (\<lambda>(y, d). nat (if d < DayFromYear y then DayFromYear y - d
                                    else d + 1 - DayFromYear (y + 1))))" by simp
  show "((y - 1, d), (y, d)) \<in> measure (\<lambda>(y, d). nat (if d < DayFromYear y
            then DayFromYear y - d else d + 1 - DayFromYear (y + 1)))"
    if "d < DayFromYear y" for y d
    using that up [of "y - 1"] by simp
  show "((y + 1, d), (y, d)) \<in> measure (\<lambda>(y, d). nat (if d < DayFromYear y
            then DayFromYear y - d else d + 1 - DayFromYear (y + 1)))"
    if "\<not> d < DayFromYear y" "DayFromYear (y + 1) \<le> d" for y d
    using that up [of "y + 1"] by simp
qed

declare year_search.simps [simp del]

definition YearFromTime :: "int \<Rightarrow> int" where
  "YearFromTime t = year_search (1970 + Day t div 365) (Day t)"

definition getUTCFullYear :: "int \<Rightarrow> int" where
  "getUTCFullYear t = YearFromTime t"

text \<open>The days of year \<open>ym\<close> before its month \<open>mn\<close> (0 is January).\<close>

definition daysBeforeMonth :: "int \<Rightarrow> int \<Rightarrow> int" where
  "daysBeforeMonth ym mn =
     [0, 31, 59, 90, 120, 151, 181, 212, 243, 273, 304, 334] ! nat mn
     + (if DaysInYear ym = 366 \<and> 2 \<le> mn then 1 else 0)"

definition MakeDay :: "int \<Rightarrow> int \<Rightarrow> int \<Rightarrow> int" where
  "MakeDay year month date =
     (let ym = year + month div 12;
          mn = month mod 12
      in DayFromYear ym + daysBeforeMonth ym mn + date - 1)"

definition full_year :: "int \<Rightarrow> int" where
  "full_year year = (if 0 \<le> year \<and> year \<le> 99 then 1900 + year else year)"

definition maxTime :: int where "maxTime = 8640000000000000"

definition validTime :: "int \<Rightarrow> bool" where
  "validTime t = (\<bar>t\<bar> \<le> maxTime)"

definition TimeClip :: "int \<Rightarrow> int option" where
  "TimeClip t = (if \<bar>t\<bar> \<le> maxTime then Some t else None)"

text \<open>The time \<open>Date.UTC\<close> computes before it clips, and \<open>Date.UTC\<close>.\<close>

definition utc_ms :: "int \<Rightarrow> int \<Rightarrow> int \<Rightarrow> int" where
  "utc_ms year month date = (let yr = full_year year in msPerDay * MakeDay yr month date)"

definition Date_UTC :: "int \<Rightarrow> int \<Rightarrow> int \<Rightarrow> int option" where
  "Date_UTC year month date = TimeClip (utc_ms year month date)"

text \<open>Comparison and addition where the right operand may be \<open>NaN\<close>.\<close>

definition num_ge :: "int \<Rightarrow> int option \<Rightarrow> bool" where
  "num_ge x y = (case y of None \<Rightarrow> False | Some v \<Rightarrow> x \<ge> v)"

definition num_lt :: "int \<Rightarrow> int option \<Rightarrow> bool" where
  "num_lt x y = (case y of None \<Rightarrow> False | Some v \<Rightarrow> x < v)"

definition num_add :: "int option \<Rightarrow> int \<Rightarrow> int option" where
  "num_add x k = map_option (\<lambda>v. v + k) x"

section \<open>The 13-Moon calendar (calendar/thirteen-moon.ts)\<close>

definition THIRTEEN_MOON_NEW_YEAR_MONTH :: int where "THIRTEEN_MOON_NEW_YEAR_MONTH = 3"
definition THIRTEEN_MOON_NEW_YEAR_DAY :: int where "THIRTEEN_MOON_NEW_YEAR_DAY = 1"
definition DAY_OUT_OF_TIME_MONTH :: int where "DAY_OUT_OF_TIME_MONTH = 10"
definition DAY_OUT_OF_TIME_DAY :: int where "DAY_OUT_OF_TIME_DAY = 11"
definition GOLDEN_RATIO_DAY :: int where "GOLDEN_RATIO_DAY = 224"
definition MS_PER_DAY :: int where "MS_PER_DAY = 86400000"

definition THIRTEEN_MOON_WEEKDAYS :: "string list" where
  "THIRTEEN_MOON_WEEKDAYS =
     [''Dali'', ''Seli'', ''Gamma'', ''Kali'', ''Alpha'', ''Limi'', ''Silio'']"

text \<open>
  The \<open>arc\<close> of a moon is one of three literal strings (Pre-phi, Post-phi, phi-point),
  a datatype here.  Of a \<open>MoonData\<close> the number, name, signature and arc are kept; the
  \<open>tone\<close> text is left out, and so are \<open>harmonicTone\<close> and \<open>formatted\<close> of the result.
\<close>

datatype Arc = PrePhi | PostPhi | PhiPoint

record MoonData =
  md_number :: int
  md_name :: string
  md_signature :: string
  md_arc :: Arc

definition mkMoon :: "int \<Rightarrow> string \<Rightarrow> string \<Rightarrow> Arc \<Rightarrow> MoonData" where
  "mkMoon n nm sg a = \<lparr> md_number = n, md_name = nm, md_signature = sg, md_arc = a \<rparr>"

definition THIRTEEN_MOONS :: "MoonData list" where
  "THIRTEEN_MOONS =
     [mkMoon 1 ''Magnetic'' ''Red Dragon'' PrePhi,
      mkMoon 2 ''Lunar'' ''White Wind'' PrePhi,
      mkMoon 3 ''Electric'' ''Blue Night'' PrePhi,
      mkMoon 4 ''Self-Existing'' ''Yellow Seed'' PrePhi,
      mkMoon 5 ''Overtone'' ''Red Serpent'' PrePhi,
      mkMoon 6 ''Rhythmic'' ''White World-Bridger'' PrePhi,
      mkMoon 7 ''Resonant'' ''Blue Hand'' PrePhi,
      mkMoon 8 ''Galactic'' ''Yellow Star'' PrePhi,
      mkMoon 9 ''Solar'' ''Red Moon'' PostPhi,
      mkMoon 10 ''Planetary'' ''White Dog'' PostPhi,
      mkMoon 11 ''Spectral'' ''Blue Monkey'' PostPhi,
      mkMoon 12 ''Crystal'' ''Yellow Human'' PostPhi,
      mkMoon 13 ''Cosmic'' ''Red Skywalker'' PostPhi]"

record ThirteenMoonDate =
  moonNumber :: int
  moonName :: string
  dayOfMoon :: int
  galacticSignature :: string
  arc :: Arc
  dayOfYear :: int
  isDayOutOfTime :: bool
  isHunabKu :: bool
  weekday :: "string option"
  totalCycles :: int

definition isLeapYear :: "int \<Rightarrow> bool" where
  "isLeapYear year = ((year smod 4 = 0 \<and> year smod 100 \<noteq> 0) \<or> year smod 400 = 0)"

text \<open>
  The local constants of \<open>toThirteenMoonDate\<close> for a date whose time value \<open>dateMs\<close> is
  a number, in the order the source computes them.  The year is then a number too;
  the results of \<open>Date.UTC\<close>, and what is computed from them, may be \<open>NaN\<close>.
\<close>

definition tm_thirteenMoonYear :: "int \<Rightarrow> int" where
  "tm_thirteenMoonYear dateMs =
     (let gYear = getUTCFullYear dateMs;
          newYearThisYear =
            Date_UTC gYear THIRTEEN_MOON_NEW_YEAR_MONTH THIRTEEN_MOON_NEW_YEAR_DAY
      in if num_ge dateMs newYearThisYear then gYear else gYear - 1)"

definition tm_yearStartMs :: "int \<Rightarrow> int option" where
  "tm_yearStartMs dateMs =
     Date_UTC (tm_thirteenMoonYear dateMs) THIRTEEN_MOON_NEW_YEAR_MONTH
       THIRTEEN_MOON_NEW_YEAR_DAY"

definition tm_daysSinceNewYear :: "int \<Rightarrow> int option" where
  "tm_daysSinceNewYear dateMs =
     map_option (\<lambda>yearStartMs. (dateMs - yearStartMs) div MS_PER_DAY) (tm_yearStartMs dateMs)"

definition tm_dotMs :: "int \<Rightarrow> int option" where
  "tm_dotMs dateMs =
     Date_UTC (tm_thirteenMoonYear dateMs) DAY_OUT_OF_TIME_MONTH DAY_OUT_OF_TIME_DAY"

definition tm_isDayOutOfTime :: "int \<Rightarrow> bool" where
  "tm_isDayOutOfTime dateMs =
     (num_ge dateMs (tm_dotMs dateMs) \<and> num_lt dateMs (num_add (tm_dotMs dateMs) MS_PER_DAY))"

definition tm_leapYearForCycle :: "int \<Rightarrow> int" where
  "tm_leapYearForCycle dateMs = tm_thirteenMoonYear dateMs + 1"

definition tm_hasLeapDay :: "int \<Rightarrow> bool" where
  "tm_hasLeapDay dateMs = isLeapYear (tm_leapYearForCycle dateMs)"

definition tm_hunabKuMs :: "int \<Rightarrow> int option" where
  "tm_hunabKuMs dateMs =
     (if tm_hasLeapDay dateMs then Date_UTC (tm_leapYearForCycle dateMs) 1 29 else Some 0)"

definition tm_isHunabKu :: "int \<Rightarrow> bool" where
  "tm_isHunabKu dateMs =
     (tm_hasLeapDay dateMs \<and> num_ge dateMs (tm_hunabKuMs dateMs)
      \<and> num_lt dateMs (num_add (tm_hunabKuMs dateMs) MS_PER_DAY))"

definition tm_totalCycles :: "int \<Rightarrow> int" where
  "tm_totalCycles dateMs = tm_thirteenMoonYear dateMs + 28000"

text \<open>
  The adjusted day: \<open>Math.max(0, Math.min(adjustedDay, 363))\<close> is \<open>NaN\<close> when its
  argument is.
\<close>

definition tm_adjustedDay :: "int \<Rightarrow> int option" where
  "tm_adjustedDay dateMs =
     (let adjustedDay = tm_daysSinceNewYear dateMs;
          adjustedDay = (if num_ge dateMs (num_add (tm_dotMs dateMs) MS_PER_DAY)
                         then num_add adjustedDay (- 1) else adjustedDay);
          adjustedDay = (if tm_hasLeapDay dateMs
                            \<and> num_ge dateMs (num_add (tm_hunabKuMs dateMs) MS_PER_DAY)
                         then num_add adjustedDay (- 1) else adjustedDay)
      in map_option (\<lambda>a. max 0 (min a 363)) adjustedDay)"

text \<open>
  \<open>toThirteenMoonDate\<close>.  The regular branch reads \<open>THIRTEEN_MOONS[safeMoonIndex]\<close> and
  then a property of it, which raises a \<open>TypeError\<close> when the element is missing, as
  it is for the index \<open>NaN\<close>; the weekday name is read from its array without such a
  use.

  For an invalid date every number the function computes is \<open>NaN\<close>: the year, the
  results of \<open>Date.UTC\<close> and the adjusted day; both tests for the irregular days are
  false (\<open>isLeapYear(NaN)\<close> is false too), so the regular branch is taken and raises
  the \<open>TypeError\<close>.
\<close>

definition toThirteenMoonDate_ms :: "int \<Rightarrow> error + ThirteenMoonDate" where
  "toThirteenMoonDate_ms dateMs =
     (if tm_isDayOutOfTime dateMs then
        Inr \<lparr> moonNumber = 0, moonName = ''Day Out of Time'', dayOfMoon = 0,
              galacticSignature = ''Green Central Sun'', arc = PhiPoint,
              dayOfYear = GOLDEN_RATIO_DAY + 1, isDayOutOfTime = True, isHunabKu = False,
              weekday = Some ''Day Out of Time'', totalCycles = tm_totalCycles dateMs \<rparr>
      else if tm_isHunabKu dateMs then
        Inr \<lparr> moonNumber = 0, moonName = ''Hunab Ku Day'', dayOfMoon = 0,
              galacticSignature = ''Hunab Ku'', arc = PostPhi,
              dayOfYear = 0, isDayOutOfTime = False, isHunabKu = True,
              weekday = Some ''Hunab Ku'', totalCycles = tm_totalCycles dateMs \<rparr>
      else
        (case tm_adjustedDay dateMs of
           None \<Rightarrow> Inl TypeError
         | Some adjustedDay \<Rightarrow>
            (let moonIndex = adjustedDay div 28;
                 dayInMoon = adjustedDay smod 28 + 1;
                 weekdayIndex = adjustedDay smod 7;
                 weekday = js_index THIRTEEN_MOON_WEEKDAYS weekdayIndex;
                 safeMoonIndex = max 0 (min moonIndex 12)
             in case js_index THIRTEEN_MOONS safeMoonIndex of
                  None \<Rightarrow> Inl TypeError
                | Some moon \<Rightarrow>
                    Inr \<lparr> moonNumber = md_number moon, moonName = md_name moon,
                          dayOfMoon = dayInMoon, galacticSignature = md_signature moon,
                          arc = md_arc moon, dayOfYear = adjustedDay + 1,
                          isDayOutOfTime = False, isHunabKu = False, weekday = weekday,
                          totalCycles = tm_totalCycles dateMs \<rparr>)))"

definition toThirteenMoonDate :: "int option \<Rightarrow> error + ThirteenMoonDate" where
  "toThirteenMoonDate date =
     (case date of None \<Rightarrow> Inl TypeError | Some dateMs \<Rightarrow> toThirteenMoonDate_ms dateMs)"

text \<open>
  The position as the specification words it, from the calendar alone.  The epoch
  anchor of a Gregorian year is its April 1; the 13-phase year of a date is the
  Gregorian year whose anchor is not after the date, else the year before; the Day
  Out of Time is November 11 of the 13-phase year, and the inserted leap day is
  February 29 of the following Gregorian year when that year is a leap year.  The
  adjusted day is the number of days since the anchor, less one for each irregular
  day whose date is not after the input date, clamped to \<open>[0, 363]\<close>.
\<close>

definition spec_epochStart :: "int \<Rightarrow> int" where
  "spec_epochStart y = msPerDay * MakeDay y 3 1"

definition spec_phaseYear :: "int \<Rightarrow> int" where
  "spec_phaseYear t =
     (let g = YearFromTime t in if spec_epochStart g \<le> t then g else g - 1)"

definition spec_daysSinceEpoch :: "int \<Rightarrow> int" where
  "spec_daysSinceEpoch t = (t - spec_epochStart (spec_phaseYear t)) div msPerDay"

definition spec_dayOutOfTime :: "int \<Rightarrow> int" where
  "spec_dayOutOfTime t = msPerDay * MakeDay (spec_phaseYear t) 10 11"

definition spec_hasLeapDay :: "int \<Rightarrow> bool" where
  "spec_hasLeapDay t = (DaysInYear (spec_phaseYear t + 1) = 366)"

definition spec_leapDay :: "int \<Rightarrow> int" where
  "spec_leapDay t = msPerDay * MakeDay (spec_phaseYear t + 1) 1 29"

definition spec_isIrregular :: "int \<Rightarrow> bool" where
  "spec_isIrregular t =
     (Day t = Day (spec_dayOutOfTime t) \<or> (spec_hasLeapDay t \<and> Day t = Day (spec_leapDay t)))"

definition spec_adjustedDay :: "int \<Rightarrow> int" where
  "spec_adjustedDay t =
     max 0 (min 363
       (spec_daysSinceEpoch t
        - (if spec_dayOutOfTime t \<le> t then 1 else 0)
        - (if spec_hasLeapDay t \<and> spec_leapDay t \<le> t then 1 else 0)))"

text \<open>
  The regular position the claim gives for the adjusted day: phase number, day in
  phase, weekday name and cycle count.
\<close>

definition spec_position :: "int \<Rightarrow> int \<times> int \<times> string option \<times> int" where
  "spec_position t =
     (let adjustedDay = spec_adjustedDay t;
          phaseIndex = max 0 (min 12 (adjustedDay div 28))
      in (phaseIndex + 1, adjustedDay mod 28 + 1,
          js_index THIRTEEN_MOON_WEEKDAYS (adjustedDay mod 7),
          spec_phaseYear t + 28000))"

text \<open>
  What is compared for one catalog entry: the stored phase count against the rounded
  quotient of the angle, the stored residue against the phase count, and the stored
  label against the residue.
\<close>

definition resonance_label :: "int \<Rightarrow> string" where
  "resonance_label g =
     (if g = 0 then ''Completion'' else if g = 1 then ''Initiation'' else ''Manifestation'')"

definition entry_rounded :: "string \<times> AspectConfig \<Rightarrow> bool" where
  "entry_rounded e =
     (if fst e = ''opposition'' then angle (snd e) = 182 \<and> phaseCount (snd e) = 6
      else phaseCount (snd e) = Math_round (angle (snd e) / PHASE_SIZE))"

definition entry_resonance :: "string \<times> AspectConfig \<Rightarrow> bool" where
  "entry_resonance e =
     (gf3 (snd e) = phaseCount (snd e) mod 3 \<and>
      ternaryResonance (snd e) = resonance_label (gf3 (snd e)))"

section \<open>Properties of the ternary operations\<close>

lemma decode_from:
  "foldl (\<lambda>result d. result * 3 + d) a ds =
     a * 3 ^ length ds + foldl (\<lambda>result d. result * 3 + d) (0::int) ds"
proof (induction ds arbitrary: a)
  case Nil
  show ?case by simp
next
  case (Cons d ds)
  show ?case
    using Cons.IH [of "a * 3 + d"] Cons.IH [of d] by (simp add: algebra_simps)
qed

lemma decode_Cons:
  "fromBijectiveTernary (d # ds) = d * 3 ^ length ds + fromBijectiveTernary ds"
  unfolding fromBijectiveTernary_def using decode_from [of d ds] by simp

text \<open>
  The loop invariant: the digits still to be produced for \<open>num\<close> stand in front of the
  digits already emitted, so decoding the final list gives \<open>num\<close> shifted by their number
  plus the value of the emitted digits.
\<close>

lemma loop_decode:
  "0 \<le> num \<Longrightarrow>
   fromBijectiveTernary (toBijectiveTernary_loop num digits) =
     num * 3 ^ length digits + fromBijectiveTernary digits"
proof (induction num digits rule: toBijectiveTernary_loop.induct)
  case (1 num digits)
  show ?case
  proof (cases "num > 0")
    case False
    with "1.prems" have "num = 0" by simp
    then show ?thesis by (subst toBijectiveTernary_loop.simps) simp
  next
    case pos: True
    then have sm: "num smod 3 = num mod 3"
      by (simp add: smod_mod_positive)
    have split: "num * 3 ^ length digits =
        3 * (num div 3) * 3 ^ length digits + num mod 3 * 3 ^ length digits"
      by (metis distrib_right mult_div_mod_eq)
    show ?thesis
    proof (cases "num mod 3 = 0")
      case True
      then have ge: "0 \<le> num div 3 - 1" using pos by presburger
      have "fromBijectiveTernary (toBijectiveTernary_loop num digits) =
            fromBijectiveTernary (toBijectiveTernary_loop (num div 3 - 1) (3 # digits))"
        using pos True sm by (subst toBijectiveTernary_loop.simps) (simp add: Let_def)
      also have "\<dots> = (num div 3 - 1) * 3 ^ length (3 # digits)
                        + fromBijectiveTernary (3 # digits)"
        using "1.IH"(1) [OF pos refl _ ge] True sm by simp
      also have "\<dots> = num * 3 ^ length digits + fromBijectiveTernary digits"
        using True by (simp add: decode_Cons split algebra_simps)
      finally show ?thesis .
    next
      case False
      have ge: "0 \<le> num div 3" using pos by simp
      have "fromBijectiveTernary (toBijectiveTernary_loop num digits) =
            fromBijectiveTernary (toBijectiveTernary_loop (num div 3) (num mod 3 # digits))"
        using pos False sm by (subst toBijectiveTernary_loop.simps) (simp add: Let_def)
      also have "\<dots> = (num div 3) * 3 ^ length (num mod 3 # digits)
                        + fromBijectiveTernary (num mod 3 # digits)"
        using "1.IH"(2) [OF pos refl _ ge] False sm by simp
      also have "\<dots> = num * 3 ^ length digits + fromBijectiveTernary digits"
        by (simp add: decode_Cons split)
      finally show ?thesis .
    qed
  qed
qed

text \<open>
  Claim C7.  Bijective base-3 round trip: for every integer \<open>n > 0\<close>, decoding the
  encoding of \<open>n\<close> gives \<open>n\<close> back; and for every \<open>n \<le> 0\<close> the encoding is the single
  digit 1.
\<close>

theorem bijective_ternary_round_trip:
  "(0 < n \<longrightarrow> fromBijectiveTernary (toBijectiveTernary n) = n) \<and>
   (n \<le> 0 \<longrightarrow> toBijectiveTernary n = [1])"
  using loop_decode [of n "[]"]
  by (simp add: toBijectiveTernary_def fromBijectiveTernary_def)

theorem bijective_ternary_round_trip_witness:
  "toBijectiveTernary 13 = [1, 1, 1] \<and>
   fromBijectiveTernary (toBijectiveTernary 13) = 13 \<and>
   toBijectiveTernary 0 = [1] \<and> toBijectiveTernary (- 4) = [1]"
proof -
  have e: "toBijectiveTernary 13 = [1, 1, 1]" by code_simp
  show ?thesis
    using bijective_ternary_round_trip [of 13] bijective_ternary_round_trip [of 0]
      bijective_ternary_round_trip [of "- 4"] e
    by simp
qed

text \<open>
  Claim C9.  \<open>convertTrit\<close> is total on the representation tags \<open>A\<close>, \<open>B\<close>, \<open>C\<close>: it never
  takes its \<open>throw\<close> branch.  The result carries the target tag; converting to the
  value's own representation leaves the value unchanged; a digit valid in \<open>X\<close> is sent
  to a digit valid in \<open>Y\<close>; and converting the result back from \<open>Y\<close> to \<open>X\<close> recovers the
  value, for every ordered pair \<open>(X, Y)\<close>.
\<close>

theorem convertTrit_total_round_trip:
  "\<exists>r. convertTrit v X Y = Inr r \<and>
        tv_representation (converted r) = Y \<and>
        (X = Y \<longrightarrow> tv_value (converted r) = v) \<and>
        (validTrit X v \<longrightarrow> validTrit Y (tv_value (converted r))) \<and>
        (\<exists>r'. convertTrit (tv_value (converted r)) Y X = Inr r' \<and>
              tv_value (converted r') = v)"
  by (cases X; cases Y) (simp_all add: convertTrit_def convertTrit_shift_def validTrit_def)

theorem convertTrit_total_round_trip_witness:
  "convertTrit (- 1) A C =
     Inr \<lparr> original = \<lparr> tv_value = - 1, tv_representation = A, tv_meaning = ''False'' \<rparr>,
           converted = \<lparr> tv_value = 1, tv_representation = C, tv_meaning = ''False'' \<rparr>,
           bijection = ''f(a) = a + 2'' \<rparr> \<and>
   convertTrit 1 C A =
     Inr \<lparr> original = \<lparr> tv_value = 1, tv_representation = C, tv_meaning = ''False'' \<rparr>,
           converted = \<lparr> tv_value = - 1, tv_representation = A, tv_meaning = ''False'' \<rparr>,
           bijection = ''f(c) = c - 2'' \<rparr> \<and>
   validTrit A (- 1) \<and> validTrit C 1"
  using convertTrit_total_round_trip [of "- 1" A C]
  by (simp add: convertTrit_def convertTrit_shift_def validTrit_def getTritMeaning_def)

section \<open>Properties of the remainder operator and of tropicalToPrime\<close>

lemma js_mod_nonneg:
  assumes "0 < y" "0 \<le> x"
  shows "js_mod x y = floor_mod x y"
  using assms by (simp add: js_mod_def js_trunc_def floor_mod_def)

lemma floor_mod_range:
  assumes "0 < y"
  shows "0 \<le> floor_mod x y" and "floor_mod x y < y"
proof -
  have xy: "(x / y) * y = x" using assms by simp
  have "of_int \<lfloor>x / y\<rfloor> * y \<le> (x / y) * y"
    by (rule mult_right_mono) (use assms in simp_all)
  then have "of_int \<lfloor>x / y\<rfloor> * y \<le> x" by (simp only: xy)
  then show "0 \<le> floor_mod x y" by (simp add: floor_mod_def mult.commute)
  have "x / y < of_int \<lfloor>x / y\<rfloor> + 1" by linarith
  then have "(x / y) * y < (of_int \<lfloor>x / y\<rfloor> + 1) * y"
    by (rule mult_strict_right_mono) (use assms in simp)
  then have "x < (of_int \<lfloor>x / y\<rfloor> + 1) * y" by (simp only: xy)
  then show "floor_mod x y < y" by (simp add: floor_mod_def algebra_simps)
qed

lemma js_mod_small:
  assumes "0 \<le> x" "x < y"
  shows "js_mod x y = x"
proof -
  have "0 < y" using assms by simp
  have "\<lfloor>x / y\<rfloor> = 0" using assms by (simp add: floor_eq_iff)
  then show ?thesis using js_mod_nonneg [OF \<open>0 < y\<close> assms(1)] by (simp add: floor_mod_def)
qed

text \<open>
  The idiom \<open>((x % y) + y) % y\<close> is the floored modulo: the first remainder lies strictly
  between \<open>-y\<close> and \<open>y\<close>, the shift makes it positive, the second remainder folds the
  shifted value back below \<open>y\<close>.
\<close>

lemma js_double_mod:
  assumes "0 < y"
  shows "js_mod (js_mod x y + y) y = floor_mod x y"
proof (cases "0 \<le> x")
  case True
  let ?m = "floor_mod x y"
  have m: "js_mod x y = ?m" using assms True by (rule js_mod_nonneg)
  have r: "0 \<le> ?m" "?m < y" using floor_mod_range [OF assms] by auto
  have "\<lfloor>(?m + y) / y\<rfloor> = 1"
    using r assms by (simp add: floor_eq_iff pos_le_divide_eq pos_divide_less_eq)
  then have "js_mod (?m + y) y = ?m"
    using js_mod_nonneg [OF assms, of "?m + y"] r by (simp add: floor_mod_def [of "?m + y"])
  then show ?thesis by (simp add: m)
next
  case False
  let ?c = "\<lceil>x / y\<rceil>"
  let ?m = "x - y * of_int ?c"
  have neg: "x / y < 0" using False assms by (simp add: divide_neg_pos)
  have m: "js_mod x y = ?m" using neg by (simp add: js_mod_def js_trunc_def)
  show ?thesis
  proof (cases "of_int ?c = x / y")
    case True
    then have fl: "\<lfloor>x / y\<rfloor> = ?c" by (metis floor_of_int)
    have "?m = x - y * (x / y)" by (simp only: True)
    then have "?m = 0" using assms by simp
    then have "js_mod (?m + y) y = 0"
      using assms by (simp add: js_mod_def js_trunc_def)
    then show ?thesis using \<open>?m = 0\<close> m fl by (simp add: floor_mod_def)
  next
    case nint: False
    have c1: "x / y < of_int ?c" using nint by (simp add: less_le)
    have c2: "of_int ?c - 1 < x / y" by linarith
    have fl: "\<lfloor>x / y\<rfloor> = ?c - 1" using c1 c2 by (simp add: floor_eq_iff)
    have lo: "0 < ?m + y"
    proof -
      have "(of_int ?c - 1) * y < x" using c2 assms by (simp add: pos_less_divide_eq)
      then show ?thesis by (simp add: algebra_simps)
    qed
    have hi: "?m + y < y"
    proof -
      have "x < of_int ?c * y" using c1 assms by (simp add: pos_divide_less_eq)
      then show ?thesis by (simp add: algebra_simps)
    qed
    have "js_mod (?m + y) y = ?m + y" using lo hi by (intro js_mod_small) simp_all
    then have "js_mod (js_mod x y + y) y = ?m + y" by (simp only: m)
    also have "\<dots> = x - y * of_int (?c - 1)" by (simp add: algebra_simps)
    finally show ?thesis by (simp only: fl floor_mod_def)
  qed
qed

lemma tropicalToPrime_eq:
  "tropicalToPrime d =
     (let scaled = floor_mod d 360 * 364 / 360
      in if \<bar>scaled - 364\<bar> < 1 / 10 ^ 9 then 0 else scaled)"
proof -
  let ?n = "floor_mod d 360"
  have n: "js_mod (js_mod d 360 + 360) 360 = ?n"
    by (rule js_double_mod) simp
  have r: "0 \<le> ?n" "?n < 360"
    using floor_mod_range [of 360 d] by auto
  let ?p = "if \<bar>?n * 364 / 360 - 364\<bar> < (1 / 10 ^ 9 :: real) then 0 else ?n * 364 / 360"
  have p: "0 \<le> ?p" "?p < 364" using r by auto
  have "js_mod (js_mod ?p 364 + 364) 364 = floor_mod ?p 364"
    by (rule js_double_mod) simp
  moreover have "\<lfloor>?p / 364\<rfloor> = 0" using p by (simp add: floor_eq_iff)
  ultimately have "js_mod (js_mod ?p 364 + 364) 364 = ?p" by (simp add: floor_mod_def)
  then show ?thesis
    by (simp only: tropicalToPrime_def Let_def n PRIME_CIRCLE_def EPSILON_def)
qed

lemma floor_mod_360_periodic: "floor_mod (d + 360 * of_int k) 360 = floor_mod d 360"
proof -
  have "(d + 360 * of_int k) / 360 = d / 360 + of_int k" by (simp add: field_simps)
  then have "\<lfloor>(d + 360 * of_int k) / 360\<rfloor> = \<lfloor>d / 360 + of_int k\<rfloor>" by (simp only:)
  then have "\<lfloor>(d + 360 * of_int k) / 360\<rfloor> = \<lfloor>d / 360\<rfloor> + k"
    by (simp only: floor_add_int)
  then show ?thesis by (simp add: floor_mod_def algebra_simps)
qed

lemma tropicalToPrime_range: "0 \<le> tropicalToPrime d" "tropicalToPrime d < 364"
proof -
  have r: "0 \<le> floor_mod d 360" "floor_mod d 360 < 360"
    using floor_mod_range [of 360 d] by auto
  show "0 \<le> tropicalToPrime d" "tropicalToPrime d < 364"
    using r by (auto simp: tropicalToPrime_eq Let_def)
qed

text \<open>
  Claim C5.  For every real tropical degree \<open>d\<close>, negative values and values above 360
  included, \<open>tropicalToPrime d\<close> lies in \<open>[0, 364)\<close>; it is the floored remainder of \<open>d\<close>
  modulo 360 scaled by 364/360, with a scaled value within \<open>1e-9\<close> of 364 replaced by 0;
  and it is periodic in the tropical domain: \<open>tropicalToPrime (d + 360 k) = tropicalToPrime d\<close>
  for every integer \<open>k\<close>.  (Degrees are exact reals here.)
\<close>

theorem tropicalToPrime_range_periodic:
  "0 \<le> tropicalToPrime d \<and> tropicalToPrime d < 364 \<and>
   (\<forall>k::int. tropicalToPrime (d + 360 * of_int k) = tropicalToPrime d) \<and>
   tropicalToPrime d =
     (let scaled = floor_mod d 360 * 364 / 360
      in if \<bar>scaled - 364\<bar> < 1 / 10 ^ 9 then 0 else scaled)"
proof -
  have b: "tropicalToPrime (d + 360 * of_int k) = tropicalToPrime d" for k
    by (simp only: tropicalToPrime_eq floor_mod_360_periodic)
  show ?thesis using tropicalToPrime_range [of d] b tropicalToPrime_eq [of d] by blast
qed

theorem tropicalToPrime_range_periodic_witness:
  "tropicalToPrime (- 350) = 91 / 9 \<and> tropicalToPrime 370 = 91 / 9 \<and>
   tropicalToPrime (360 - 1 / 10 ^ 10) = 0 \<and>
   \<bar>floor_mod (360 - 1 / 10 ^ 10) 360 * 364 / 360 - 364\<bar> < 1 / 10 ^ 9"
proof -
  have a: "tropicalToPrime (- 350) = 91 / 9" by code_simp
  have c: "tropicalToPrime (360 - 1 / 10 ^ 10) = 0" by code_simp
  have e: "\<bar>floor_mod (360 - 1 / 10 ^ 10) 360 * 364 / 360 - 364\<bar> < 1 / 10 ^ 9" by code_simp
  from tropicalToPrime_range_periodic [of "- 350"]
  have "tropicalToPrime (- 350 + 360 * of_int 2) = tropicalToPrime (- 350)" by blast
  then have "tropicalToPrime 370 = tropicalToPrime (- 350)" by simp
  then show ?thesis using a c e by simp
qed

section \<open>Properties of house resolution\<close>

lemma house_index_range:
  fixes rel :: real
  assumes "0 \<le> rel" "rel < 364"
  shows "0 \<le> \<lfloor>rel / 28\<rfloor>" and "\<lfloor>rel / 28\<rfloor> \<le> 12"
proof -
  show "0 \<le> \<lfloor>rel / 28\<rfloor>" using assms by simp
  have "rel / 28 < 13" using assms by simp
  then have "\<lfloor>rel / 28\<rfloor> < 13" by (simp add: floor_less_iff)
  then show "\<lfloor>rel / 28\<rfloor> \<le> 12" by simp
qed

lemma getHouseFromDegree_Cons:
  "\<exists>h. getHouseFromDegree d (c # cs) =
         \<lparr> house = Some h, houseName = HOUSE_NAMES ! nat (h - 1), alsoIn13th = (h = 13),
           primeDegree = tropicalToPrime d \<rparr> \<and>
       h = \<lfloor>floor_mod (tropicalToPrime d - tropicalToPrime c) 364 / 28\<rfloor> + 1 \<and>
       1 \<le> h \<and> h \<le> 13"
proof -
  let ?rel = "floor_mod (tropicalToPrime d - tropicalToPrime c) 364"
  let ?i = "\<lfloor>?rel / 28\<rfloor>"
  have rel: "js_mod (js_mod (tropicalToPrime d - tropicalToPrime c) PRIME_CIRCLE + PRIME_CIRCLE)
               PRIME_CIRCLE = ?rel"
    unfolding PRIME_CIRCLE_def by (rule js_double_mod) simp
  have r: "0 \<le> ?rel" "?rel < 364" using floor_mod_range [of 364] by simp_all
  have i: "0 \<le> ?i" "?i \<le> 12" using house_index_range [OF r] by simp_all
  have idx: "js_index HOUSE_NAMES ?i = Some (HOUSE_NAMES ! nat ?i)"
    using i by (simp add: js_index_def HOUSE_NAMES_def)
  have "getHouseFromDegree d (c # cs) =
         \<lparr> house = Some (?i + 1), houseName = HOUSE_NAMES ! nat ?i, alsoIn13th = (?i + 1 = 13),
           primeDegree = tropicalToPrime d \<rparr>"
    using i idx by (simp add: getHouseFromDegree_def Let_def rel PHASE_SIZE_def NUM_PHASES_def)
  then show ?thesis using i by (intro exI [of _ "?i + 1"]) simp
qed

text \<open>
  Claim C3, as the code has it.  Given a cusp sequence with fewer than 13 entries,
  \<open>isIn13thHouse\<close> answers \<open>false\<close>, and \<open>getHouseFromDegree\<close>, which never looks at the
  length, returns an ordinary result: for a non-empty sequence the house in \<open>1..13\<close>
  found from cusp 0 alone, with its name and the 13th-house flag; for the empty
  sequence a result whose house number is \<open>NaN\<close>.  No error is raised and no
  indeterminate answer exists.
\<close>

theorem short_cusp_table_ordinary_answer:
  "length cs < 13 \<Longrightarrow>
   isIn13thHouse d cs = False \<and>
   (case cs of
      [] \<Rightarrow> getHouseFromDegree d cs =
              \<lparr> house = None, houseName = ''House NaN'', alsoIn13th = False,
                primeDegree = tropicalToPrime d \<rparr>
    | c # _ \<Rightarrow>
        (\<exists>h. getHouseFromDegree d cs =
               \<lparr> house = Some h, houseName = HOUSE_NAMES ! nat (h - 1), alsoIn13th = (h = 13),
                 primeDegree = tropicalToPrime d \<rparr> \<and>
             h = \<lfloor>floor_mod (tropicalToPrime d - tropicalToPrime c) 364 / 28\<rfloor> + 1 \<and>
             1 \<le> h \<and> h \<le> 13))"
proof -
  assume len: "length cs < 13"
  have a: "isIn13thHouse d cs = False"
    using len by (simp add: isIn13thHouse_def NUM_PHASES_def)
  show ?thesis
  proof (cases cs)
    case Nil
    then show ?thesis using a by (simp add: getHouseFromDegree_def)
  next
    case (Cons c cs')
    then show ?thesis using a getHouseFromDegree_Cons [of d c cs'] by simp
  qed
qed

theorem short_cusp_table_ordinary_answer_witness:
  "length [0, 28 :: real] < 13 \<and> isIn13thHouse 100 [0, 28] = False \<and>
   getHouseFromDegree 100 [0, 28] =
     \<lparr> house = Some 4, houseName = ''Liege Maximo'', alsoIn13th = False,
       primeDegree = 910 / 9 \<rparr>"
proof -
  have l: "length [0, 28 :: real] < 13" by simp
  have h: "getHouseFromDegree 100 [0, 28] =
     \<lparr> house = Some 4, houseName = ''Liege Maximo'', alsoIn13th = False,
       primeDegree = 910 / 9 \<rparr>" by code_simp
  from short_cusp_table_ordinary_answer [OF l, of 100]
  have "isIn13thHouse 100 [0, 28] = False" by (rule conjunct1)
  then show ?thesis using h l by simp
qed

text \<open>
  The claim as stated fails: with the one-entry sequence \<open>[0]\<close> and the tropical degree
  350, \<open>isIn13thHouse\<close> returns the definite answer \<open>false\<close> and \<open>getHouseFromDegree\<close>
  returns house 13 with the 13th-house flag set.
\<close>

theorem short_cusp_table_counterexample:
  "length [0 :: real] < 13 \<and> isIn13thHouse 350 [0] = False \<and>
   getHouseFromDegree 350 [0] =
     \<lparr> house = Some 13, houseName = ''Optimus Prime'', alsoIn13th = True,
       primeDegree = 3185 / 9 \<rparr>"
proof -
  have a: "isIn13thHouse 350 [0] = False" by code_simp
  have b: "getHouseFromDegree 350 [0] =
     \<lparr> house = Some 13, houseName = ''Optimus Prime'', alsoIn13th = True,
       primeDegree = 3185 / 9 \<rparr>" by code_simp
  show ?thesis using a b by simp
qed

section \<open>Properties of the aspect classifier\<close>

lemma aspect_loop_None:
  "aspect_loop diff es = None \<longleftrightarrow> (\<forall>e \<in> set es. \<not> aspect_match diff e)"
  by (induction es) auto

lemma aspect_loop_Some:
  "aspect_loop diff es = Some r \<longleftrightarrow>
     (\<exists>i < length es. aspect_match diff (es ! i) \<and>
        (\<forall>j < i. \<not> aspect_match diff (es ! j)) \<and> r = aspect_result diff (es ! i))"
proof (induction es)
  case Nil
  show ?case by simp
next
  case (Cons e es)
  show ?case
  proof (cases "aspect_match diff e")
    case True
    have "(\<exists>i < length (e # es). aspect_match diff ((e # es) ! i) \<and>
        (\<forall>j < i. \<not> aspect_match diff ((e # es) ! j)) \<and> r = aspect_result diff ((e # es) ! i))
      \<longleftrightarrow> r = aspect_result diff e"
    proof
      assume "\<exists>i < length (e # es). aspect_match diff ((e # es) ! i) \<and>
        (\<forall>j < i. \<not> aspect_match diff ((e # es) ! j)) \<and> r = aspect_result diff ((e # es) ! i)"
      then obtain i where i: "(\<forall>j < i. \<not> aspect_match diff ((e # es) ! j))"
        "r = aspect_result diff ((e # es) ! i)" by blast
      have "i = 0"
      proof (rule ccontr)
        assume "i \<noteq> 0"
        then have "\<not> aspect_match diff ((e # es) ! 0)" using i(1) by blast
        then show False using True by simp
      qed
      then show "r = aspect_result diff e" using i(2) by simp
    next
      assume "r = aspect_result diff e"
      then show "\<exists>i < length (e # es). aspect_match diff ((e # es) ! i) \<and>
        (\<forall>j < i. \<not> aspect_match diff ((e # es) ! j)) \<and> r = aspect_result diff ((e # es) ! i)"
        using True by (intro exI [of _ 0]) simp
    qed
    then show ?thesis using True by auto
  next
    case False
    have "(\<exists>i < length (e # es). aspect_match diff ((e # es) ! i) \<and>
        (\<forall>j < i. \<not> aspect_match diff ((e # es) ! j)) \<and> r = aspect_result diff ((e # es) ! i))
      \<longleftrightarrow> (\<exists>i < length es. aspect_match diff (es ! i) \<and>
        (\<forall>j < i. \<not> aspect_match diff (es ! j)) \<and> r = aspect_result diff (es ! i))"
      (is "?L \<longleftrightarrow> ?R")
    proof
      assume ?L
      then obtain i where i: "i < length (e # es)" "aspect_match diff ((e # es) ! i)"
        "\<forall>j < i. \<not> aspect_match diff ((e # es) ! j)"
        "r = aspect_result diff ((e # es) ! i)" by blast
      from i(2) False obtain k where k: "i = Suc k" by (cases i) auto
      have "\<forall>j < k. \<not> aspect_match diff (es ! j)"
      proof (intro allI impI)
        fix j assume "j < k"
        then have "Suc j < i" using k by simp
        then have "\<not> aspect_match diff ((e # es) ! Suc j)" using i(3) by blast
        then show "\<not> aspect_match diff (es ! j)" by simp
      qed
      then show ?R using i k by (intro exI [of _ k]) simp
    next
      assume ?R
      then obtain k where k: "k < length es" "aspect_match diff (es ! k)"
        "\<forall>j < k. \<not> aspect_match diff (es ! j)"
        "r = aspect_result diff (es ! k)" by blast
      have "\<forall>j < Suc k. \<not> aspect_match diff ((e # es) ! j)"
      proof (intro allI impI)
        fix j assume "j < Suc k"
        then show "\<not> aspect_match diff ((e # es) ! j)"
          using False k(3) by (cases j) auto
      qed
      then show ?L using k by (intro exI [of _ "Suc k"]) simp
    qed
    then show ?thesis using False Cons.IH by simp
  qed
qed

lemma ASPECT_TYPES_table:
  "map (\<lambda>e. (fst e, angle (snd e), orb (snd e))) ASPECT_TYPES =
     [(''conjunction'', 0, 8), (''opposition'', 182, 8), (''trine'', 121333 / 1000, 6),
      (''square'', 91, 6), (''sextile'', 60667 / 1000, 4), (''quintile'', 728 / 10, 3),
      (''septile'', 52, 2), (''novile'', 40444 / 1000, 2), (''tredecile'', 28, 2),
      (''quincunx'', 151667 / 1000, 3)]"
  by (simp add: ASPECT_TYPES_def mkAspect_def)

text \<open>
  Claim C8.  The 364 branch of \<open>calculateAspect\<close> scans the catalog in its declared order
  (conjunction, opposition, trine, square, sextile, quintile, septile, novile,
  tredecile, quincunx; each with its angle and orb) and returns the first entry
  whose angle differs from the separation by at most its orb: the entry at an index
  \<open>i\<close> with \<open>|separation - angle| \<le> orb\<close> such that no entry at a smaller index passes
  that test.  The result carries the name, angle, harmonic and ternary fields of that
  entry and the distance \<open>|separation - angle|\<close>.  The result is none exactly when no
  entry passes the test.
\<close>

theorem calculateAspect_first_match:
  "map (\<lambda>e. (fst e, angle (snd e), orb (snd e))) ASPECT_TYPES =
     [(''conjunction'', 0, 8), (''opposition'', 182, 8), (''trine'', 121333 / 1000, 6),
      (''square'', 91, 6), (''sextile'', 60667 / 1000, 4), (''quintile'', 728 / 10, 3),
      (''septile'', 52, 2), (''novile'', 40444 / 1000, 2), (''tredecile'', 28, 2),
      (''quincunx'', 151667 / 1000, 3)] \<and>
   (calculateAspect d1 d2 True = None \<longleftrightarrow>
      (\<forall>i < length ASPECT_TYPES.
          \<not> \<bar>separation364 d1 d2 - angle (snd (ASPECT_TYPES ! i))\<bar>
              \<le> orb (snd (ASPECT_TYPES ! i)))) \<and>
   (\<forall>r. calculateAspect d1 d2 True = Some r \<longleftrightarrow>
      (\<exists>i name c. i < length ASPECT_TYPES \<and> ASPECT_TYPES ! i = (name, c) \<and>
          \<bar>separation364 d1 d2 - angle c\<bar> \<le> orb c \<and>
          (\<forall>j < i. \<not> \<bar>separation364 d1 d2 - angle (snd (ASPECT_TYPES ! j))\<bar>
                       \<le> orb (snd (ASPECT_TYPES ! j))) \<and>
          r = \<lparr> r_type = name, r_exact = angle c,
                r_orb = \<bar>separation364 d1 d2 - angle c\<bar>, r_harmonic = harmonic c,
                r_ternary = Some \<lparr> t_phaseCount = phaseCount c, t_gf3 = gf3 c,
                                    t_resonance = ternaryResonance c,
                                    t_bijectiveNotation =
                                      toBijectiveTernary (phaseCount c) \<rparr> \<rparr>))"
proof (intro conjI allI)
  let ?s = "separation364 d1 d2"
  show "map (\<lambda>e. (fst e, angle (snd e), orb (snd e))) ASPECT_TYPES =
     [(''conjunction'', 0, 8), (''opposition'', 182, 8), (''trine'', 121333 / 1000, 6),
      (''square'', 91, 6), (''sextile'', 60667 / 1000, 4), (''quintile'', 728 / 10, 3),
      (''septile'', 52, 2), (''novile'', 40444 / 1000, 2), (''tredecile'', 28, 2),
      (''quincunx'', 151667 / 1000, 3)]"
    by (rule ASPECT_TYPES_table)
  have "calculateAspect d1 d2 True = None \<longleftrightarrow>
      (\<forall>e \<in> set ASPECT_TYPES. \<not> aspect_match ?s e)"
    by (simp add: calculateAspect_def aspect_loop_None)
  also have "\<dots> \<longleftrightarrow> (\<forall>i < length ASPECT_TYPES. \<not> aspect_match ?s (ASPECT_TYPES ! i))"
    by (simp add: all_set_conv_all_nth)
  finally show "calculateAspect d1 d2 True = None \<longleftrightarrow>
      (\<forall>i < length ASPECT_TYPES.
          \<not> \<bar>?s - angle (snd (ASPECT_TYPES ! i))\<bar> \<le> orb (snd (ASPECT_TYPES ! i)))"
    by (simp only: aspect_match_def)
next
  fix r
  let ?s = "separation364 d1 d2"
  have "calculateAspect d1 d2 True = Some r \<longleftrightarrow>
     (\<exists>i < length ASPECT_TYPES. aspect_match ?s (ASPECT_TYPES ! i) \<and>
        (\<forall>j < i. \<not> aspect_match ?s (ASPECT_TYPES ! j)) \<and>
        r = aspect_result ?s (ASPECT_TYPES ! i))"
    by (simp add: calculateAspect_def aspect_loop_Some)
  also have "\<dots> \<longleftrightarrow>
     (\<exists>i name c. i < length ASPECT_TYPES \<and> ASPECT_TYPES ! i = (name, c) \<and>
          \<bar>?s - angle c\<bar> \<le> orb c \<and>
          (\<forall>j < i. \<not> \<bar>?s - angle (snd (ASPECT_TYPES ! j))\<bar> \<le> orb (snd (ASPECT_TYPES ! j))) \<and>
          r = \<lparr> r_type = name, r_exact = angle c,
                r_orb = \<bar>?s - angle c\<bar>, r_harmonic = harmonic c,
                r_ternary = Some \<lparr> t_phaseCount = phaseCount c, t_gf3 = gf3 c,
                                    t_resonance = ternaryResonance c,
                                    t_bijectiveNotation =
                                      toBijectiveTernary (phaseCount c) \<rparr> \<rparr>)"
    (is "?L \<longleftrightarrow> ?R")
  proof
    assume ?L
    then obtain i where i: "i < length ASPECT_TYPES" "aspect_match ?s (ASPECT_TYPES ! i)"
      "\<forall>j < i. \<not> aspect_match ?s (ASPECT_TYPES ! j)"
      "r = aspect_result ?s (ASPECT_TYPES ! i)" by blast
    obtain name c where e: "ASPECT_TYPES ! i = (name, c)" by (cases "ASPECT_TYPES ! i")
    show ?R
      using i unfolding e
      by (intro exI [of _ i] exI [of _ name] exI [of _ c])
         (simp add: e aspect_match_def aspect_result_def)
  next
    assume ?R
    then obtain i name c where i: "i < length ASPECT_TYPES" "ASPECT_TYPES ! i = (name, c)"
      "\<bar>?s - angle c\<bar> \<le> orb c"
      "\<forall>j < i. \<not> \<bar>?s - angle (snd (ASPECT_TYPES ! j))\<bar> \<le> orb (snd (ASPECT_TYPES ! j))"
      "r = \<lparr> r_type = name, r_exact = angle c,
                r_orb = \<bar>?s - angle c\<bar>, r_harmonic = harmonic c,
                r_ternary = Some \<lparr> t_phaseCount = phaseCount c, t_gf3 = gf3 c,
                                    t_resonance = ternaryResonance c,
                                    t_bijectiveNotation =
                                      toBijectiveTernary (phaseCount c) \<rparr> \<rparr>" by blast
    show ?L
      using i by (intro exI [of _ i]) (simp add: aspect_match_def aspect_result_def)
  qed
  finally show "calculateAspect d1 d2 True = Some r \<longleftrightarrow> ?R" .
qed

theorem calculateAspect_first_match_witness:
  "separation364 0 (7650 / 91) = 85 \<and>
   calculateAspect 0 (7650 / 91) True =
     Some \<lparr> r_type = ''square'', r_exact = 91, r_orb = 6, r_harmonic = 4,
            r_ternary = Some \<lparr> t_phaseCount = 3, t_gf3 = 0, t_resonance = ''Completion'',
                                t_bijectiveNotation = [3] \<rparr> \<rparr> \<and>
   separation364 0 20 = 182 / 9 \<and>
   calculateAspect 0 20 True = None"
proof -
  have sep1: "separation364 0 (7650 / 91) = 85" by code_simp
  have sep2: "separation364 0 20 = 182 / 9" by code_simp
  have e3: "ASPECT_TYPES ! 3 = (''square'', mkAspect 91 6 ''challenge'' 8 4 3 0 ''Completion'')"
    by (simp add: ASPECT_TYPES_def)
  have len: "length ASPECT_TYPES = 10" by (simp add: ASPECT_TYPES_def)
  have n0: "\<not> \<bar>85 - angle (snd (ASPECT_TYPES ! 0))\<bar> \<le> orb (snd (ASPECT_TYPES ! 0))"
    by (simp add: ASPECT_TYPES_def mkAspect_def)
  have n1: "\<not> \<bar>85 - angle (snd (ASPECT_TYPES ! 1))\<bar> \<le> orb (snd (ASPECT_TYPES ! 1))"
    by (simp add: ASPECT_TYPES_def mkAspect_def)
  have n2: "\<not> \<bar>85 - angle (snd (ASPECT_TYPES ! 2))\<bar> \<le> orb (snd (ASPECT_TYPES ! 2))"
    by (simp add: ASPECT_TYPES_def mkAspect_def)
  have before: "\<not> \<bar>85 - angle (snd (ASPECT_TYPES ! j))\<bar> \<le> orb (snd (ASPECT_TYPES ! j))"
    if "j < 3" for j
  proof -
    have "j = 0 \<or> j = 1 \<or> j = 2" using that by arith
    then show ?thesis using n0 n1 n2 by (elim disjE) simp_all
  qed
  have t3: "toBijectiveTernary 3 = [3]" by code_simp
  have none: "list_all (\<lambda>e. \<not> \<bar>182 / 9 - angle (snd e)\<bar> \<le> orb (snd e)) ASPECT_TYPES"
    by (simp add: ASPECT_TYPES_def mkAspect_def)
  have a: "\<exists>i name c. i < length ASPECT_TYPES \<and> ASPECT_TYPES ! i = (name, c) \<and>
          \<bar>separation364 0 (7650 / 91) - angle c\<bar> \<le> orb c \<and>
          (\<forall>j < i. \<not> \<bar>separation364 0 (7650 / 91) - angle (snd (ASPECT_TYPES ! j))\<bar>
                       \<le> orb (snd (ASPECT_TYPES ! j))) \<and>
          \<lparr> r_type = ''square'', r_exact = 91, r_orb = 6, r_harmonic = 4,
            r_ternary = Some \<lparr> t_phaseCount = 3, t_gf3 = 0, t_resonance = ''Completion'',
                                t_bijectiveNotation = [3] \<rparr> \<rparr> =
            \<lparr> r_type = name, r_exact = angle c,
                r_orb = \<bar>separation364 0 (7650 / 91) - angle c\<bar>, r_harmonic = harmonic c,
                r_ternary = Some \<lparr> t_phaseCount = phaseCount c, t_gf3 = gf3 c,
                                    t_resonance = ternaryResonance c,
                                    t_bijectiveNotation =
                                      toBijectiveTernary (phaseCount c) \<rparr> \<rparr>"
    using before len
    by (intro exI [of _ 3] exI [of _ "''square''"]
          exI [of _ "mkAspect 91 6 ''challenge'' 8 4 3 0 ''Completion''"])
       (simp add: sep1 e3 mkAspect_def t3)
  have b: "\<forall>i < length ASPECT_TYPES.
          \<not> \<bar>separation364 0 20 - angle (snd (ASPECT_TYPES ! i))\<bar>
              \<le> orb (snd (ASPECT_TYPES ! i))"
    using none by (simp only: sep2 list_all_length) 
  from calculateAspect_first_match [of 0 "7650 / 91"] a
  have "calculateAspect 0 (7650 / 91) True =
     Some \<lparr> r_type = ''square'', r_exact = 91, r_orb = 6, r_harmonic = 4,
            r_ternary = Some \<lparr> t_phaseCount = 3, t_gf3 = 0, t_resonance = ''Completion'',
                                t_bijectiveNotation = [3] \<rparr> \<rparr>"
    by blast
  moreover from calculateAspect_first_match [of 0 20] b
  have "calculateAspect 0 20 True = None" by blast
  ultimately show ?thesis using sep1 sep2 by simp
qed

lemma in_table:
  "aspect_loop diff es = Some r \<Longrightarrow> \<exists>e \<in> set es. r = aspect_result diff e"
  by (induction es) (auto split: if_splits)

lemma table_rounded: "list_all entry_rounded ASPECT_TYPES"
  by code_simp

lemma table_resonance: "list_all entry_resonance ASPECT_TYPES"
  by code_simp

text \<open>
  Claim C1, as the code has it.  A match of the 364 branch reports the phase count,
  residue and label stored in the matched catalog entry.  For every entry other than
  opposition the stored phase count equals \<open>Math.round(angle / 28)\<close>; for opposition
  (angle 182, quotient exactly 6.5) the stored phase count is 6.  In every case the
  reported residue is the reported phase count modulo 3, and the label is the one
  fixed for that residue (0 Completion, 1 Initiation, 2 Manifestation).
\<close>

theorem calculateAspect_phase_resonance:
  "calculateAspect d1 d2 True = Some r \<Longrightarrow>
   \<exists>e \<in> set ASPECT_TYPES. \<exists>t.
      r_type r = fst e \<and> r_exact r = angle (snd e) \<and> r_ternary r = Some t \<and>
      t_phaseCount t = phaseCount (snd e) \<and>
      (r_type r \<noteq> ''opposition'' \<longrightarrow> t_phaseCount t = Math_round (r_exact r / PHASE_SIZE)) \<and>
      (r_type r = ''opposition'' \<longrightarrow> r_exact r = 182 \<and> t_phaseCount t = 6) \<and>
      t_gf3 t = t_phaseCount t mod 3 \<and>
      t_resonance t = resonance_label (t_gf3 t)"
proof -
  assume "calculateAspect d1 d2 True = Some r"
  then have "aspect_loop (separation364 d1 d2) ASPECT_TYPES = Some r"
    by (simp add: calculateAspect_def)
  from in_table [OF this]
  obtain e where e: "e \<in> set ASPECT_TYPES" "r = aspect_result (separation364 d1 d2) e"
    by blast
  have "entry_rounded e" "entry_resonance e"
    using e(1) table_rounded table_resonance by (auto simp: list_all_iff)
  then show ?thesis using e
    by (intro bexI [of _ e]) (auto simp: aspect_result_def entry_rounded_def entry_resonance_def)
qed

theorem calculateAspect_phase_resonance_witness:
  "calculateAspect 0 120 True =
     Some \<lparr> r_type = ''trine'', r_exact = 121333 / 1000, r_orb = 1 / 3000, r_harmonic = 3,
            r_ternary = Some \<lparr> t_phaseCount = 4, t_gf3 = 1, t_resonance = ''Initiation'',
                                t_bijectiveNotation = [1, 1] \<rparr> \<rparr> \<and>
   Math_round (121333 / 1000 / PHASE_SIZE) = 4 \<and> (4 :: int) mod 3 = 1 \<and>
   resonance_label 1 = ''Initiation''"
proof -
  have v: "calculateAspect 0 120 True =
     Some \<lparr> r_type = ''trine'', r_exact = 121333 / 1000, r_orb = 1 / 3000, r_harmonic = 3,
            r_ternary = Some \<lparr> t_phaseCount = 4, t_gf3 = 1, t_resonance = ''Initiation'',
                                t_bijectiveNotation = [1, 1] \<rparr> \<rparr>" by code_simp
  from calculateAspect_phase_resonance [OF v]
  have "Math_round (121333 / 1000 / PHASE_SIZE) = 4 \<and> resonance_label 1 = ''Initiation''"
    by auto
  then show ?thesis using v by simp
qed

text \<open>
  The claim as stated fails at the opposition: the positions 0 and 180 are 182 apart
  on the ring, the match reports the phase count 6, and \<open>Math.round(182 / 28)\<close> is 7
  (as \<open>getAspectTernarySignature\<close> computes it for the same angle).
\<close>

theorem opposition_phaseCount_counterexample:
  "calculateAspect 0 180 True =
     Some \<lparr> r_type = ''opposition'', r_exact = 182, r_orb = 0, r_harmonic = 2,
            r_ternary = Some \<lparr> t_phaseCount = 6, t_gf3 = 0, t_resonance = ''Completion'',
                                t_bijectiveNotation = [1, 3] \<rparr> \<rparr> \<and>
   Math_round (182 / PHASE_SIZE) = 7 \<and>
   s_phaseCount (getAspectTernarySignature 182) = 7"
proof -
  have a: "calculateAspect 0 180 True =
     Some \<lparr> r_type = ''opposition'', r_exact = 182, r_orb = 0, r_harmonic = 2,
            r_ternary = Some \<lparr> t_phaseCount = 6, t_gf3 = 0, t_resonance = ''Completion'',
                                t_bijectiveNotation = [1, 3] \<rparr> \<rparr>" by code_simp
  have b: "Math_round (182 / PHASE_SIZE) = 7" by code_simp
  have c: "s_phaseCount (getAspectTernarySignature 182) = 7" by code_simp
  show ?thesis using a b c by simp
qed

section \<open>Properties of the runtime's dates\<close>

text \<open>
  \<open>DayFromYear\<close> advances by the length of the year, so it is strictly increasing, and
  the search returns the one year whose days contain the given day: the model of
  \<open>YearFromTime\<close> meets the characterisation ECMA-262 gives.
\<close>

lemma div_step:
  fixes n k :: int
  assumes "0 < k"
  shows "(n + 1) div k = n div k + (if k dvd (n + 1) then 1 else 0)"
proof -
  let ?q = "n div k" and ?r = "n mod k"
  have n: "n = k * ?q + ?r" by simp
  have r: "0 \<le> ?r" "?r < k" using assms by simp_all
  show ?thesis
  proof (cases "k dvd (n + 1)")
    case True
    have "(?r + 1) mod k = (n + 1) mod k" by (rule mod_add_left_eq)
    then have "(?r + 1) mod k = 0" using True by simp
    then have "k dvd (?r + 1)" by (simp only: mod_eq_0_iff_dvd)
    then have "k \<le> ?r + 1" using r by (intro zdvd_imp_le) simp_all
    then have "?r + 1 = k" using r by simp
    then have "n + 1 = k * ?q + k" using n by linarith
    then have "n + 1 = k * (?q + 1) + 0" by (simp add: algebra_simps)
    then have "(n + 1) div k = ?q + 1" by (rule int_div_pos_eq) (use assms in simp_all)
    then show ?thesis using True by simp
  next
    case False
    have "?r + 1 \<noteq> k"
    proof
      assume "?r + 1 = k"
      then have "n + 1 = k * ?q + k" using n by linarith
      then have "n + 1 = k * (?q + 1)" by (simp add: algebra_simps)
      then show False using False by simp
    qed
    then have lt: "?r + 1 < k" using r by simp
    have "n + 1 = k * ?q + (?r + 1)" using n by simp
    then have "(n + 1) div k = ?q" using lt r by (intro int_div_pos_eq [of _ _ _ "?r + 1"]) simp_all
    then show ?thesis using False by simp
  qed
qed

lemma DaysInYear_dvd:
  "DaysInYear y = (if 4 dvd y \<and> (\<not> 100 dvd y \<or> 400 dvd y) then 366 else 365)"
proof -
  have a: "100 dvd y \<Longrightarrow> 4 dvd y" by (rule dvd_trans [of 4 100 y]) simp_all
  have b: "400 dvd y \<Longrightarrow> 100 dvd y" by (rule dvd_trans [of 100 400 y]) simp_all
  have "DaysInYear y =
      (if \<not> 4 dvd y then 365 else if \<not> 100 dvd y then 366
       else if \<not> 400 dvd y then 365 else 366)"
    by (simp only: DaysInYear_def mod_eq_0_iff_dvd)
  then show ?thesis using a b by (cases "4 dvd y"; cases "100 dvd y"; cases "400 dvd y") simp_all
qed

lemma DayFromYear_Suc: "DayFromYear (y + 1) = DayFromYear y + DaysInYear y"
proof -
  define p4 p100 p400 :: int
    where "p4 = (if 4 dvd y then 1 else 0)"
      and "p100 = (if 100 dvd y then 1 else 0)"
      and "p400 = (if 400 dvd y then 1 else 0)"
  define q4 q100 q400
    where "q4 = (y - 1969) div 4" and "q100 = (y - 1901) div 100"
      and "q400 = (y - 1601) div 400"
  have a: "(y - 1968) div 4 = q4 + p4"
    unfolding q4_def p4_def using div_step [of 4 "y - 1969"] by (simp add: dvd_diff_left_iff)
  have b: "(y - 1900) div 100 = q100 + p100"
    unfolding q100_def p100_def using div_step [of 100 "y - 1901"]
    by (simp add: dvd_diff_left_iff)
  have c: "(y - 1600) div 400 = q400 + p400"
    unfolding q400_def p400_def using div_step [of 400 "y - 1601"]
    by (simp add: dvd_diff_left_iff)
  have d: "100 dvd y \<Longrightarrow> 4 dvd y" by (rule dvd_trans [of 4 100 y]) simp_all
  have e: "400 dvd y \<Longrightarrow> 100 dvd y" by (rule dvd_trans [of 100 400 y]) simp_all
  have days: "DaysInYear y = 365 + p4 - p100 + p400"
    unfolding p4_def p100_def p400_def using d e
    by (cases "4 dvd y"; cases "100 dvd y"; cases "400 dvd y") (simp_all add: DaysInYear_dvd)
  have "DayFromYear (y + 1) =
      365 * (y - 1969) + (y - 1968) div 4 - (y - 1900) div 100 + (y - 1600) div 400"
    by (simp add: DayFromYear_def)
  also have "\<dots> = 365 * (y - 1969) + (q4 + p4) - (q100 + p100) + (q400 + p400)"
    by (simp only: a b c)
  also have "\<dots> = (365 * (y - 1970) + q4 - q100 + q400) + (365 + p4 - p100 + p400)"
    by simp
  also have "365 * (y - 1970) + q4 - q100 + q400 = DayFromYear y"
    by (simp only: DayFromYear_def q4_def q100_def q400_def)
  finally show ?thesis by (simp only: days)
qed

lemma DaysInYear_bounds: "365 \<le> DaysInYear y" "DaysInYear y \<le> 366"
  by (simp_all add: DaysInYear_def)

lemma DayFromYear_less_Suc: "DayFromYear y < DayFromYear (y + 1)"
  using DaysInYear_bounds(1) [of y] by (simp add: DayFromYear_Suc)

lemma DayFromYear_mono: "y \<le> y' \<Longrightarrow> DayFromYear y \<le> DayFromYear y'"
proof (induction y' rule: int_ge_induct)
  case base
  show ?case by simp
next
  case (step i)
  then show ?case using DayFromYear_less_Suc [of i] by simp
qed

lemma DayFromYear_strict: "y < y' \<Longrightarrow> DayFromYear y < DayFromYear y'"
  using DayFromYear_mono [of "y + 1" y'] DayFromYear_less_Suc [of y] by simp

lemma year_unique:
  assumes "DayFromYear y \<le> d" "d < DayFromYear (y + 1)"
    and "DayFromYear y' \<le> d" "d < DayFromYear (y' + 1)"
  shows "y = y'"
proof (rule ccontr)
  assume "y \<noteq> y'"
  then consider "y < y'" | "y' < y" by linarith
  then show False
  proof cases
    case 1
    then have "DayFromYear (y + 1) \<le> DayFromYear y'" by (intro DayFromYear_mono) simp
    then show False using assms by simp
  next
    case 2
    then have "DayFromYear (y' + 1) \<le> DayFromYear y" by (intro DayFromYear_mono) simp
    then show False using assms by simp
  qed
qed

lemma year_search_correct:
  "DayFromYear (year_search y d) \<le> d \<and> d < DayFromYear (year_search y d + 1)"
proof (induction y d rule: year_search.induct)
  case (1 y d)
  show ?case
  proof (cases "d < DayFromYear y")
    case True
    then show ?thesis using "1.IH"(1) by (subst (1 2) year_search.simps) simp
  next
    case False
    show ?thesis
    proof (cases "DayFromYear (y + 1) \<le> d")
      case True
      then show ?thesis using False "1.IH"(2) by (subst (1 2) year_search.simps) simp
    next
      case nup: False
      then show ?thesis using False by (subst (1 2) year_search.simps) simp
    qed
  qed
qed

lemma YearFromTime_eq:
  assumes "DayFromYear y \<le> Day t" "Day t < DayFromYear (y + 1)"
  shows "YearFromTime t = y"
  using year_unique [OF _ _ assms] year_search_correct [of "1970 + Day t div 365" "Day t"]
  by (simp add: YearFromTime_def)

section \<open>Properties of the calendar mapper\<close>

lemma tm_adjustedDay_range:
  assumes "tm_adjustedDay t = Some a"
  shows "0 \<le> a" "a \<le> 363"
  using assms by (auto simp: tm_adjustedDay_def Let_def)

lemma tm_adjustedDay_None: "tm_adjustedDay t = None \<longleftrightarrow> tm_yearStartMs t = None"
  by (simp add: tm_adjustedDay_def Let_def num_add_def tm_daysSinceNewYear_def)

lemma moon_lookup:
  assumes "0 \<le> i" "i \<le> 12"
  shows "js_index THIRTEEN_MOONS i = Some (THIRTEEN_MOONS ! nat i)"
    and "md_number (THIRTEEN_MOONS ! nat i) = i + 1"
proof -
  show "js_index THIRTEEN_MOONS i = Some (THIRTEEN_MOONS ! nat i)"
    using assms by (simp add: js_index_def THIRTEEN_MOONS_def)
  have "i = 0 \<or> i = 1 \<or> i = 2 \<or> i = 3 \<or> i = 4 \<or> i = 5 \<or> i = 6 \<or> i = 7 \<or> i = 8
      \<or> i = 9 \<or> i = 10 \<or> i = 11 \<or> i = 12"
    using assms by arith
  then show "md_number (THIRTEEN_MOONS ! nat i) = i + 1"
    by (elim disjE) (simp_all add: THIRTEEN_MOONS_def mkMoon_def)
qed

lemma weekday_lookup:
  assumes "0 \<le> i" "i < 7"
  shows "js_index THIRTEEN_MOON_WEEKDAYS i = Some (THIRTEEN_MOON_WEEKDAYS ! nat i)"
  using assms by (simp add: js_index_def THIRTEEN_MOON_WEEKDAYS_def)

lemma toThirteenMoonDate_ms_regular:
  assumes "\<not> tm_isDayOutOfTime t" "\<not> tm_isHunabKu t" "tm_adjustedDay t = Some a"
  shows "toThirteenMoonDate_ms t =
     Inr \<lparr> moonNumber = a div 28 + 1,
           moonName = md_name (THIRTEEN_MOONS ! nat (a div 28)),
           dayOfMoon = a mod 28 + 1,
           galacticSignature = md_signature (THIRTEEN_MOONS ! nat (a div 28)),
           arc = md_arc (THIRTEEN_MOONS ! nat (a div 28)),
           dayOfYear = a + 1,
           isDayOutOfTime = False, isHunabKu = False,
           weekday = Some (THIRTEEN_MOON_WEEKDAYS ! nat (a mod 7)),
           totalCycles = tm_totalCycles t \<rparr>"
proof -
  have a: "0 \<le> a" "a \<le> 363" using tm_adjustedDay_range [OF assms(3)] by simp_all
  have i: "0 \<le> a div 28" "a div 28 \<le> 12" using a by simp_all
  have safe: "max 0 (min (a div 28) 12) = a div 28" using i by simp
  have s28: "a smod 28 = a mod 28" using a by (simp add: smod_mod_positive)
  have s7: "a smod 7 = a mod 7" using a by (simp add: smod_mod_positive)
  have w: "js_index THIRTEEN_MOON_WEEKDAYS (a mod 7) = Some (THIRTEEN_MOON_WEEKDAYS ! nat (a mod 7))"
    by (rule weekday_lookup) simp_all
  show ?thesis
    using assms moon_lookup [OF i]
    by (simp add: toThirteenMoonDate_ms_def Let_def safe s28 s7 w)
qed

lemma toThirteenMoonDate_ms_fails:
  "toThirteenMoonDate_ms t = Inl e \<longleftrightarrow>
     e = TypeError \<and> \<not> tm_isDayOutOfTime t \<and> \<not> tm_isHunabKu t \<and> tm_yearStartMs t = None"
proof (cases "tm_isDayOutOfTime t \<or> tm_isHunabKu t")
  case True
  then show ?thesis by (auto simp: toThirteenMoonDate_ms_def)
next
  case False
  show ?thesis
  proof (cases "tm_adjustedDay t")
    case None
    then have "toThirteenMoonDate_ms t = Inl TypeError"
      using False by (simp add: toThirteenMoonDate_ms_def)
    moreover have "tm_yearStartMs t = None" using None by (simp add: tm_adjustedDay_None)
    ultimately show ?thesis using False by auto
  next
    case (Some a)
    then have "tm_yearStartMs t \<noteq> None" using tm_adjustedDay_None [of t] by simp
    then show ?thesis using False toThirteenMoonDate_ms_regular [of t a] Some by simp
  qed
qed


lemma smod_eq_0_iff:
  fixes k l :: int
  assumes "0 < l"
  shows "k smod l = 0 \<longleftrightarrow> l dvd k"
proof -
  have "k smod l = 0 \<longleftrightarrow> k = 0 \<or> \<bar>k\<bar> mod l = 0"
    using assms by (auto simp: signed_modulo_int_def sgn_if)
  also have "\<dots> \<longleftrightarrow> l dvd \<bar>k\<bar>" by (auto simp: mod_eq_0_iff_dvd)
  finally show ?thesis by simp
qed

lemma isLeapYear_iff: "isLeapYear y \<longleftrightarrow> DaysInYear y = 366"
proof -
  have "400 dvd y \<Longrightarrow> 4 dvd y" by (rule dvd_trans [of 4 400 y]) simp_all
  then show ?thesis by (auto simp: isLeapYear_def smod_eq_0_iff DaysInYear_dvd)
qed

lemma full_year_idem: "full_year (full_year y) = full_year y"
  by (simp add: full_year_def)

lemma utc_ms_full_year: "utc_ms (full_year y) m d = utc_ms y m d"
  by (simp add: utc_ms_def full_year_idem)

lemma anchor_eq:
  "utc_ms y 3 1 =
     msPerDay * (DayFromYear (full_year y) + (if DaysInYear (full_year y) = 366 then 91 else 90))"
  by (simp add: utc_ms_def MakeDay_def Let_def daysBeforeMonth_def)

lemma dot_eq: "utc_ms y 10 11 = utc_ms y 3 1 + 224 * msPerDay"
  by (simp add: utc_ms_def MakeDay_def Let_def daysBeforeMonth_def algebra_simps)

lemma leap_day_eq:
  "utc_ms y 1 29 = msPerDay * (DayFromYear (full_year y) + 59)"
  by (simp add: utc_ms_def MakeDay_def Let_def daysBeforeMonth_def)

lemma full_year_Suc: "y \<noteq> 99 \<Longrightarrow> full_year y < full_year (y + 1)"
  by (simp add: full_year_def)

lemma leap_day_after_anchor:
  assumes "isLeapYear (y + 1)"
  shows "utc_ms y 3 1 + 334 * msPerDay \<le> utc_ms (y + 1) 1 29"
proof -
  have "y \<noteq> 99"
  proof
    assume "y = 99"
    then have "isLeapYear 100" using assms by simp
    then show False by (simp add: isLeapYear_def)
  qed
  then have "full_year y + 1 \<le> full_year (y + 1)" using full_year_Suc [of y] by simp
  then have "DayFromYear (full_year y + 1) \<le> DayFromYear (full_year (y + 1))"
    by (rule DayFromYear_mono)
  then have "DayFromYear (full_year y) + DaysInYear (full_year y)
      \<le> DayFromYear (full_year (y + 1))"
    by (simp add: DayFromYear_Suc)
  moreover have "DaysInYear (full_year y) = 365 \<or> DaysInYear (full_year y) = 366"
    by (simp add: DaysInYear_def)
  ultimately have "DayFromYear (full_year y)
      + (if DaysInYear (full_year y) = 366 then 91 else 90) + 334
      \<le> DayFromYear (full_year (y + 1)) + 59"
    by auto
  then have "msPerDay * (DayFromYear (full_year y)
      + (if DaysInYear (full_year y) = 366 then 91 else 90) + 334)
      \<le> msPerDay * (DayFromYear (full_year (y + 1)) + 59)"
    by (intro mult_left_mono) (simp_all add: msPerDay_def)
  then show ?thesis by (simp only: anchor_eq leap_day_eq) (simp add: algebra_simps)
qed

text \<open>
  A time \<open>k\<close> days and \<open>r\<close> milliseconds after an April 1 anchor that \<open>Date.UTC\<close> can
  represent, for \<open>k\<close> up to the end of December.
\<close>

lemma in_year:
  assumes k: "0 \<le> k" "k \<le> 274" and r: "0 \<le> r" "r < msPerDay"
    and a: "Date_UTC y 3 1 = Some a"
    and t: "t = a + k * msPerDay + r"
  shows "tm_thirteenMoonYear t = full_year y"
    and "tm_yearStartMs t = Some a"
    and "tm_daysSinceNewYear t = Some k"
proof -
  let ?Y = "full_year y"
  let ?b = "if DaysInYear ?Y = 366 then 91 else (90::int)"
  have a': "a = utc_ms y 3 1"
    using a by (auto simp: Date_UTC_def TimeClip_def split: if_splits)
  have t': "t = msPerDay * (DayFromYear ?Y + ?b + k) + r"
    unfolding t a' by (simp only: anchor_eq) (simp add: algebra_simps)
  have day: "Day t = DayFromYear ?Y + ?b + k"
    unfolding Day_def by (rule int_div_pos_eq [OF t' r])
  have lo: "DayFromYear ?Y \<le> Day t" using k by (simp add: day)
  have "DaysInYear ?Y = 365 \<or> DaysInYear ?Y = 366" by (simp add: DaysInYear_def)
  then have hi: "Day t < DayFromYear (?Y + 1)"
    using k by (auto simp: day DayFromYear_Suc)
  have g: "getUTCFullYear t = ?Y"
    unfolding getUTCFullYear_def using lo hi by (rule YearFromTime_eq)
  have aY: "Date_UTC ?Y 3 1 = Some a"
    using a by (simp add: Date_UTC_def utc_ms_full_year)
  have "0 \<le> k * msPerDay" using k by (simp add: msPerDay_def)
  then have ge: "a \<le> t" using r by (simp add: t)
  show y: "tm_thirteenMoonYear t = ?Y"
    using ge by (simp add: tm_thirteenMoonYear_def Let_def g aY num_ge_def
        THIRTEEN_MOON_NEW_YEAR_MONTH_def THIRTEEN_MOON_NEW_YEAR_DAY_def)
  show s: "tm_yearStartMs t = Some a"
    by (simp add: tm_yearStartMs_def y aY
        THIRTEEN_MOON_NEW_YEAR_MONTH_def THIRTEEN_MOON_NEW_YEAR_DAY_def)
  have "t - a = msPerDay * k + r" by (simp add: t algebra_simps)
  then have "(t - a) div msPerDay = k" using r by (rule int_div_pos_eq)
  then have "(t - a) div MS_PER_DAY = k"
    by (simp only: MS_PER_DAY_def msPerDay_def)
  then show "tm_daysSinceNewYear t = Some k"
    by (simp add: tm_daysSinceNewYear_def s)
qed

lemma in_year_flags:
  assumes k: "0 \<le> k" "k \<le> 274" and r: "0 \<le> r" "r < msPerDay"
    and a: "Date_UTC y 3 1 = Some a"
    and t: "t = a + k * msPerDay + r"
    and v: "validTime t"
  shows "tm_isDayOutOfTime t \<longleftrightarrow> k = 224"
    and "\<not> tm_isHunabKu t"
    and "tm_adjustedDay t = Some (if 225 \<le> k then k - 1 else k)"
proof -
  note iy = in_year [OF k r a t]
  have a': "a = utc_ms y 3 1" and va: "\<bar>a\<bar> \<le> maxTime"
    using a by (auto simp: Date_UTC_def TimeClip_def split: if_splits)
  have r': "0 \<le> r" "r < 86400000" using r by (simp_all add: msPerDay_def)
  have tA: "t = a + k * 86400000 + r" by (simp add: t msPerDay_def)
  have vt: "\<bar>t\<bar> \<le> maxTime" using v by (simp add: validTime_def)
  have ms: "MS_PER_DAY = 86400000" by (simp add: MS_PER_DAY_def)
  define D where "D = a + 224 * 86400000"
  have dot: "tm_dotMs t = TimeClip D"
    by (simp add: tm_dotMs_def iy(1) Date_UTC_def utc_ms_full_year dot_eq a' msPerDay_def
        DAY_OUT_OF_TIME_MONTH_def DAY_OUT_OF_TIME_DAY_def D_def)
  have clip: "TimeClip D = Some D" if "224 \<le> k"
  proof -
    have "D \<le> t" using that r' tA D_def by arith
    moreover have "a \<le> D" by (simp add: D_def)
    ultimately have "\<bar>D\<bar> \<le> maxTime" using va vt by arith
    then show ?thesis by (simp add: TimeClip_def)
  qed
  show "tm_isDayOutOfTime t \<longleftrightarrow> k = 224"
  proof (cases "224 \<le> k")
    case True
    have "tm_isDayOutOfTime t \<longleftrightarrow> (D \<le> t \<and> t < D + 86400000)"
      by (simp add: tm_isDayOutOfTime_def dot clip [OF True] ms num_ge_def num_lt_def
          num_add_def)
    also have "\<dots> \<longleftrightarrow> k = 224" using r' tA D_def by arith
    finally show ?thesis .
  next
    case False
    then have lt: "t < D" using r' tA D_def by arith
    have "\<not> num_ge t (TimeClip D)"
      using lt by (simp add: num_ge_def TimeClip_def)
    then show ?thesis using False by (simp add: tm_isDayOutOfTime_def dot)
  qed
  have before_leap: "\<not> num_ge t (tm_hunabKuMs t)"
    and before_leap': "\<not> num_ge t (num_add (tm_hunabKuMs t) MS_PER_DAY)"
    if "tm_hasLeapDay t"
  proof -
    have l: "isLeapYear (full_year y + 1)"
      using that by (simp add: tm_hasLeapDay_def tm_leapYearForCycle_def iy(1))
    have "utc_ms (full_year y) 3 1 + 334 * msPerDay \<le> utc_ms (full_year y + 1) 1 29"
      using l by (rule leap_day_after_anchor)
    then have h: "a + 334 * 86400000 \<le> utc_ms (full_year y + 1) 1 29"
      by (simp add: utc_ms_full_year a' msPerDay_def)
    have hk: "tm_hunabKuMs t = TimeClip (utc_ms (full_year y + 1) 1 29)"
      using that by (simp add: tm_hunabKuMs_def tm_leapYearForCycle_def iy(1) Date_UTC_def)
    have lt: "t < utc_ms (full_year y + 1) 1 29" using h k r' tA by arith
    show "\<not> num_ge t (tm_hunabKuMs t)"
      using lt by (simp add: hk num_ge_def TimeClip_def)
    show "\<not> num_ge t (num_add (tm_hunabKuMs t) MS_PER_DAY)"
      using lt by (simp add: hk num_ge_def num_add_def TimeClip_def ms)
  qed
  show "\<not> tm_isHunabKu t"
    using before_leap by (auto simp: tm_isHunabKu_def)
  have nl: "(tm_hasLeapDay t \<and> num_ge t (num_add (tm_hunabKuMs t) MS_PER_DAY)) = False"
    using before_leap' by auto
  have dd: "num_ge t (num_add (tm_dotMs t) MS_PER_DAY) \<longleftrightarrow> 225 \<le> k"
  proof (cases "225 \<le> k")
    case True
    then have "224 \<le> k" by simp
    from clip [OF this] have "num_ge t (num_add (tm_dotMs t) MS_PER_DAY) \<longleftrightarrow>
        D + 86400000 \<le> t"
      by (simp add: dot num_ge_def num_add_def ms)
    also have "\<dots> \<longleftrightarrow> 225 \<le> k" using r' tA D_def by arith
    finally show ?thesis .
  next
    case False
    then have lt: "t < D + 86400000" using r' tA D_def by arith
    have "\<not> num_ge t (num_add (TimeClip D) MS_PER_DAY)"
      using lt by (simp add: num_ge_def num_add_def TimeClip_def ms)
    then show ?thesis using False by (simp add: dot)
  qed
  have "tm_adjustedDay t =
      map_option (\<lambda>a. max 0 (min a 363)) (if 225 \<le> k then num_add (Some k) (- 1) else Some k)"
    by (simp only: tm_adjustedDay_def Let_def iy(3) dd nl if_False)
  then show "tm_adjustedDay t = Some (if 225 \<le> k then k - 1 else k)"
    using k by (simp add: num_add_def)
qed

lemma days_223_224_225:
  "Date_UTC y 3 1 = Some a \<Longrightarrow> 0 \<le> r \<Longrightarrow> r < MS_PER_DAY \<Longrightarrow>
   validTime (a + 224 * MS_PER_DAY + r) \<Longrightarrow>
   Date_UTC y 10 11 = Some (a + 224 * MS_PER_DAY) \<and>
   toThirteenMoonDate (Some (a + 224 * MS_PER_DAY + r)) =
     Inr \<lparr> moonNumber = 0, moonName = ''Day Out of Time'', dayOfMoon = 0,
           galacticSignature = ''Green Central Sun'', arc = PhiPoint, dayOfYear = 225,
           isDayOutOfTime = True, isHunabKu = False, weekday = Some ''Day Out of Time'',
           totalCycles = full_year y + 28000 \<rparr> \<and>
   toThirteenMoonDate (Some (a + 223 * MS_PER_DAY + r)) =
     Inr \<lparr> moonNumber = 8, moonName = ''Galactic'', dayOfMoon = 28,
           galacticSignature = ''Yellow Star'', arc = PrePhi, dayOfYear = 224,
           isDayOutOfTime = False, isHunabKu = False, weekday = Some ''Silio'',
           totalCycles = full_year y + 28000 \<rparr> \<and>
   (validTime (a + 225 * MS_PER_DAY + r) \<longrightarrow>
    toThirteenMoonDate (Some (a + 225 * MS_PER_DAY + r)) =
     Inr \<lparr> moonNumber = 9, moonName = ''Solar'', dayOfMoon = 1,
           galacticSignature = ''Red Moon'', arc = PostPhi, dayOfYear = 225,
           isDayOutOfTime = False, isHunabKu = False, weekday = Some ''Dali'',
           totalCycles = full_year y + 28000 \<rparr>)"
proof -
  assume a: "Date_UTC y 3 1 = Some a" and r0: "0 \<le> r" and r1: "r < MS_PER_DAY"
    and v: "validTime (a + 224 * MS_PER_DAY + r)"
  have ms: "MS_PER_DAY = msPerDay" by (simp add: MS_PER_DAY_def msPerDay_def)
  have r: "0 \<le> r" "r < msPerDay" using r0 r1 by (simp_all add: ms)
  have a': "a = utc_ms y 3 1" and va: "\<bar>a\<bar> \<le> maxTime"
    using a by (auto simp: Date_UTC_def TimeClip_def split: if_splits)
  define t224 t223 t225
    where "t224 = a + 224 * msPerDay + r"
      and "t223 = a + 223 * msPerDay + r"
      and "t225 = a + 225 * msPerDay + r"
  have v224: "validTime t224" using v by (simp add: t224_def ms)
  have v223: "validTime t223"
    using v224 va r by (simp add: validTime_def t224_def t223_def msPerDay_def)
  have "\<bar>a + 224 * msPerDay\<bar> \<le> maxTime"
    using v224 va r by (simp add: validTime_def t224_def msPerDay_def)
  then have d: "Date_UTC y 10 11 = Some (a + 224 * MS_PER_DAY)"
    by (simp add: Date_UTC_def dot_eq a' TimeClip_def ms)
  have k224: "(0::int) \<le> 224" "(224::int) \<le> 274" by simp_all
  have k223: "(0::int) \<le> 223" "(223::int) \<le> 274" by simp_all
  have k225: "(0::int) \<le> 225" "(225::int) \<le> 274" by simp_all
  have b: "toThirteenMoonDate (Some t224) =
     Inr \<lparr> moonNumber = 0, moonName = ''Day Out of Time'', dayOfMoon = 0,
           galacticSignature = ''Green Central Sun'', arc = PhiPoint, dayOfYear = 225,
           isDayOutOfTime = True, isHunabKu = False, weekday = Some ''Day Out of Time'',
           totalCycles = full_year y + 28000 \<rparr>"
    using in_year_flags(1) [OF k224 r a t224_def v224] in_year(1) [OF k224 r a t224_def]
    by (simp add: toThirteenMoonDate_def toThirteenMoonDate_ms_def tm_totalCycles_def
        GOLDEN_RATIO_DAY_def)
  have c: "toThirteenMoonDate (Some t223) =
     Inr \<lparr> moonNumber = 8, moonName = ''Galactic'', dayOfMoon = 28,
           galacticSignature = ''Yellow Star'', arc = PrePhi, dayOfYear = 224,
           isDayOutOfTime = False, isHunabKu = False, weekday = Some ''Silio'',
           totalCycles = full_year y + 28000 \<rparr>"
    using in_year_flags [OF k223 r a t223_def v223] in_year(1) [OF k223 r a t223_def]
    by (simp add: toThirteenMoonDate_def toThirteenMoonDate_ms_regular tm_totalCycles_def
        THIRTEEN_MOONS_def mkMoon_def THIRTEEN_MOON_WEEKDAYS_def)
  have e: "toThirteenMoonDate (Some t225) =
     Inr \<lparr> moonNumber = 9, moonName = ''Solar'', dayOfMoon = 1,
           galacticSignature = ''Red Moon'', arc = PostPhi, dayOfYear = 225,
           isDayOutOfTime = False, isHunabKu = False, weekday = Some ''Dali'',
           totalCycles = full_year y + 28000 \<rparr>" if "validTime t225"
    using in_year_flags [OF k225 r a t225_def that] in_year(1) [OF k225 r a t225_def]
    by (simp add: toThirteenMoonDate_def toThirteenMoonDate_ms_regular tm_totalCycles_def
        THIRTEEN_MOONS_def mkMoon_def THIRTEEN_MOON_WEEKDAYS_def)
  show ?thesis
    using d b c e unfolding t224_def t223_def t225_def ms by blast
qed

subsection \<open>The Day Out of Time\<close>

lemma spec_epochStart_utc: "y < 0 \<or> 99 < y \<Longrightarrow> utc_ms y m d = msPerDay * MakeDay y m d"
  by (auto simp: utc_ms_def full_year_def)

text \<open>
  Claim C2, as the code has it.  Take a year outside 0 to 99 whose April 1 anchor is a
  time value of the runtime.  November 11 of that year is 224 days after the anchor,
  whether or not a February 29 falls in the 13-moon year, and every valid date of
  that day (\<open>r\<close> milliseconds into it) is mapped to the Day Out of Time marker, which
  reports the day of year 225 and belongs to no moon.  The day before is the regular
  day 224 (Galactic 28) and the day after, 225 days after the anchor, is the regular
  day 225 (Solar 1): the marker takes no number of the regular count.
\<close>

theorem day_out_of_time_after_224_days:
  "y < 0 \<or> 99 < y \<Longrightarrow> validTime (spec_epochStart y) \<Longrightarrow> 0 \<le> r \<Longrightarrow> r < MS_PER_DAY \<Longrightarrow>
   validTime (spec_epochStart y + 224 * MS_PER_DAY + r) \<Longrightarrow>
   msPerDay * MakeDay y 10 11 = spec_epochStart y + 224 * MS_PER_DAY \<and>
   toThirteenMoonDate (Some (spec_epochStart y + 224 * MS_PER_DAY + r)) =
     Inr \<lparr> moonNumber = 0, moonName = ''Day Out of Time'', dayOfMoon = 0,
           galacticSignature = ''Green Central Sun'', arc = PhiPoint, dayOfYear = 225,
           isDayOutOfTime = True, isHunabKu = False, weekday = Some ''Day Out of Time'',
           totalCycles = y + 28000 \<rparr> \<and>
   toThirteenMoonDate (Some (spec_epochStart y + 223 * MS_PER_DAY + r)) =
     Inr \<lparr> moonNumber = 8, moonName = ''Galactic'', dayOfMoon = 28,
           galacticSignature = ''Yellow Star'', arc = PrePhi, dayOfYear = 224,
           isDayOutOfTime = False, isHunabKu = False, weekday = Some ''Silio'',
           totalCycles = y + 28000 \<rparr> \<and>
   (validTime (spec_epochStart y + 225 * MS_PER_DAY + r) \<longrightarrow>
    toThirteenMoonDate (Some (spec_epochStart y + 225 * MS_PER_DAY + r)) =
     Inr \<lparr> moonNumber = 9, moonName = ''Solar'', dayOfMoon = 1,
           galacticSignature = ''Red Moon'', arc = PostPhi, dayOfYear = 225,
           isDayOutOfTime = False, isHunabKu = False, weekday = Some ''Dali'',
           totalCycles = y + 28000 \<rparr>)"
proof -
  assume y: "y < 0 \<or> 99 < y" and va: "validTime (spec_epochStart y)"
    and r: "0 \<le> r" "r < MS_PER_DAY"
    and v: "validTime (spec_epochStart y + 224 * MS_PER_DAY + r)"
  have fy: "full_year y = y" using y by (auto simp: full_year_def)
  have a: "Date_UTC y 3 1 = Some (spec_epochStart y)"
    using va by (simp add: Date_UTC_def spec_epochStart_utc [OF y] spec_epochStart_def
        TimeClip_def validTime_def)
  have "utc_ms y 10 11 = utc_ms y 3 1 + 224 * msPerDay" by (rule dot_eq)
  then have n: "msPerDay * MakeDay y 10 11 = spec_epochStart y + 224 * MS_PER_DAY"
    by (simp add: spec_epochStart_utc [OF y] spec_epochStart_def MS_PER_DAY_def msPerDay_def)
  show ?thesis
    using days_223_224_225 [OF a r v] n by (simp add: fy)
qed

theorem day_out_of_time_after_224_days_witness:
  "((2024::int) < 0 \<or> (99::int) < 2024) \<and> spec_epochStart 2024 = 1711929600000 \<and>
   validTime 1711929600000 \<and> (0::int) \<le> 3600000 \<and> 3600000 < MS_PER_DAY \<and>
   1711929600000 + 224 * MS_PER_DAY + 3600000 = 1731286800000 \<and> validTime 1731286800000 \<and>
   msPerDay * MakeDay 2024 10 11 = 1731283200000 \<and>
   toThirteenMoonDate (Some 1731286800000) =
     Inr \<lparr> moonNumber = 0, moonName = ''Day Out of Time'', dayOfMoon = 0,
           galacticSignature = ''Green Central Sun'', arc = PhiPoint, dayOfYear = 225,
           isDayOutOfTime = True, isHunabKu = False, weekday = Some ''Day Out of Time'',
           totalCycles = 30024 \<rparr> \<and>
   toThirteenMoonDate (Some 1731200400000) =
     Inr \<lparr> moonNumber = 8, moonName = ''Galactic'', dayOfMoon = 28,
           galacticSignature = ''Yellow Star'', arc = PrePhi, dayOfYear = 224,
           isDayOutOfTime = False, isHunabKu = False, weekday = Some ''Silio'',
           totalCycles = 30024 \<rparr>"
proof -
  have e: "spec_epochStart 2024 = 1711929600000" by code_simp
  have v1: "validTime 1711929600000" by (simp add: validTime_def maxTime_def)
  have v2: "validTime 1731286800000" by (simp add: validTime_def maxTime_def)
  have m: "MS_PER_DAY = 86400000" by (simp add: MS_PER_DAY_def)
  have "(2024::int) < 0 \<or> (99::int) < 2024" by simp
  from day_out_of_time_after_224_days [OF this, of 3600000]
  show ?thesis using v1 v2 by (simp add: e m)
qed

text \<open>
  The date 225 days after the anchor of 2023 is 12 November 2023, which the mapper
  returns as a regular day, the first of the Solar moon, and not as the Day Out of
  Time.
\<close>

theorem day_225_after_anchor_counterexample:
  "spec_epochStart 2023 = 1680307200000 \<and>
   1680307200000 + 225 * MS_PER_DAY = 1699747200000 \<and>
   msPerDay * MakeDay 2023 10 12 = 1699747200000 \<and>
   toThirteenMoonDate (Some 1699747200000) =
     Inr \<lparr> moonNumber = 9, moonName = ''Solar'', dayOfMoon = 1,
           galacticSignature = ''Red Moon'', arc = PostPhi, dayOfYear = 225,
           isDayOutOfTime = False, isHunabKu = False, weekday = Some ''Dali'',
           totalCycles = 30023 \<rparr>"
proof -
  have e: "spec_epochStart 2023 = 1680307200000" by code_simp
  have n: "msPerDay * MakeDay 2023 10 12 = 1699747200000" by code_simp
  have a: "Date_UTC 2023 3 1 = Some 1680307200000" by code_simp
  have m: "MS_PER_DAY = 86400000" by (simp add: MS_PER_DAY_def)
  have "validTime (1680307200000 + 224 * MS_PER_DAY + 0)"
    by (simp add: validTime_def maxTime_def m)
  from days_223_224_225 [OF a _ _ this]
  have "toThirteenMoonDate (Some 1699747200000) =
     Inr \<lparr> moonNumber = 9, moonName = ''Solar'', dayOfMoon = 1,
           galacticSignature = ''Red Moon'', arc = PostPhi, dayOfYear = 225,
           isDayOutOfTime = False, isHunabKu = False, weekday = Some ''Dali'',
           totalCycles = 30023 \<rparr>"
    by (simp add: m validTime_def maxTime_def full_year_def)
  then show ?thesis using e n by (simp add: m)
qed

subsection \<open>Dates at the start of the range of time values\<close>

lemma far_year_1: "getUTCFullYear (- 8640000000000000) = - 271821"
proof -
  have "DayFromYear (- 271821) \<le> Day (- 8640000000000000)" by code_simp
  moreover have "Day (- 8640000000000000) < DayFromYear (- 271821 + 1)" by code_simp
  ultimately show ?thesis unfolding getUTCFullYear_def by (rule YearFromTime_eq)
qed

lemma far_year_2: "getUTCFullYear (- 8639977881600000) = - 271820"
proof -
  have "DayFromYear (- 271820) \<le> Day (- 8639977881600000)" by code_simp
  moreover have "Day (- 8639977881600000) < DayFromYear (- 271820 + 1)" by code_simp
  ultimately show ?thesis unfolding getUTCFullYear_def by (rule YearFromTime_eq)
qed

text \<open>
  Claim C4 at the earliest valid date, the time value \<open>-8640000000000000\<close> (20 April of
  the year -271821).  \<open>Date.UTC\<close> gives \<open>NaN\<close> for April 1 of that year and of the year
  before, neither irregular day is detected, and the regular branch raises a
  \<open>TypeError\<close>.
\<close>

theorem earliest_date_raises_TypeError:
  "validTime (- 8640000000000000) \<and>
   getUTCFullYear (- 8640000000000000) = - 271821 \<and>
   Date_UTC (- 271821) 3 1 = None \<and>
   Date_UTC (- 271822) 3 1 = None \<and>
   toThirteenMoonDate (Some (- 8640000000000000)) = Inl TypeError"
proof -
  have v: "validTime (- 8640000000000000)" by (simp add: validTime_def maxTime_def)
  have a1: "Date_UTC (- 271821) 3 1 = None" by code_simp
  have a2: "Date_UTC (- 271822) 3 1 = None" by code_simp
  have d: "Date_UTC (- 271822) 10 11 = None" by code_simp
  have l: "\<not> isLeapYear (- 271821)" by code_simp
  have y: "tm_thirteenMoonYear (- 8640000000000000) = - 271822"
    by (simp add: tm_thirteenMoonYear_def far_year_1 a1 num_ge_def
        THIRTEEN_MOON_NEW_YEAR_MONTH_def THIRTEEN_MOON_NEW_YEAR_DAY_def)
  have s: "tm_yearStartMs (- 8640000000000000) = None"
    by (simp add: tm_yearStartMs_def y a2
        THIRTEEN_MOON_NEW_YEAR_MONTH_def THIRTEEN_MOON_NEW_YEAR_DAY_def)
  have nd: "\<not> tm_isDayOutOfTime (- 8640000000000000)"
    by (simp add: tm_isDayOutOfTime_def tm_dotMs_def y d num_ge_def
        DAY_OUT_OF_TIME_MONTH_def DAY_OUT_OF_TIME_DAY_def)
  have nh: "\<not> tm_isHunabKu (- 8640000000000000)"
    using l by (simp add: tm_isHunabKu_def tm_hasLeapDay_def tm_leapYearForCycle_def y)
  have "toThirteenMoonDate_ms (- 8640000000000000) = Inl TypeError"
    using nd nh s by (simp add: toThirteenMoonDate_ms_fails)
  then show ?thesis using v far_year_1 a1 a2 by (simp add: toThirteenMoonDate_def)
qed

text \<open>
  Claim C10 at 1 January of the year -271820, a valid date.  Its 13-moon year is
  -271821, whose April 1 is before the first time value; the date is neither
  irregular day, and the mapper returns no classification: it raises a \<open>TypeError\<close>.
\<close>

theorem regular_day_without_anchor_raises_TypeError:
  "Date_UTC (- 271820) 0 1 = Some (- 8639977881600000) \<and>
   validTime (- 8639977881600000) \<and>
   \<not> tm_isDayOutOfTime (- 8639977881600000) \<and>
   \<not> tm_isHunabKu (- 8639977881600000) \<and>
   toThirteenMoonDate (Date_UTC (- 271820) 0 1) = Inl TypeError"
proof -
  have t: "Date_UTC (- 271820) 0 1 = Some (- 8639977881600000)" by code_simp
  have v: "validTime (- 8639977881600000)" by (simp add: validTime_def maxTime_def)
  have a1: "Date_UTC (- 271820) 3 1 = Some (- 8639970019200000)" by code_simp
  have a2: "Date_UTC (- 271821) 3 1 = None" by code_simp
  have d: "Date_UTC (- 271821) 10 11 = Some (- 8639982288000000)" by code_simp
  have l: "isLeapYear (- 271820)" by code_simp
  have h: "Date_UTC (- 271820) 1 29 = Some (- 8639972784000000)" by code_simp
  have y: "tm_thirteenMoonYear (- 8639977881600000) = - 271821"
    by (simp add: tm_thirteenMoonYear_def far_year_2 a1 num_ge_def
        THIRTEEN_MOON_NEW_YEAR_MONTH_def THIRTEEN_MOON_NEW_YEAR_DAY_def)
  have s: "tm_yearStartMs (- 8639977881600000) = None"
    by (simp add: tm_yearStartMs_def y a2
        THIRTEEN_MOON_NEW_YEAR_MONTH_def THIRTEEN_MOON_NEW_YEAR_DAY_def)
  have nd: "\<not> tm_isDayOutOfTime (- 8639977881600000)"
    by (simp add: tm_isDayOutOfTime_def tm_dotMs_def y d num_ge_def num_lt_def num_add_def
        DAY_OUT_OF_TIME_MONTH_def DAY_OUT_OF_TIME_DAY_def MS_PER_DAY_def)
  have nh: "\<not> tm_isHunabKu (- 8639977881600000)"
    using l by (simp add: tm_isHunabKu_def tm_hunabKuMs_def tm_hasLeapDay_def
        tm_leapYearForCycle_def y h num_ge_def)
  have "toThirteenMoonDate_ms (- 8639977881600000) = Inl TypeError"
    using nd nh s by (simp add: toThirteenMoonDate_ms_fails)
  then show ?thesis using t v nd nh by (simp add: toThirteenMoonDate_def)
qed

subsection \<open>A date in a year from 0 to 99\<close>

text \<open>
  Claim C6 at 15 June of the year 75, a valid date that is neither irregular day.
  It is 75 days after April 1 of the year 75, so the position of the claim is moon 3,
  day 20, weekday Limi, cycle 28075.  The mapper takes \<open>Date.UTC(75, 3, 1)\<close> and
  \<open>Date.UTC(74, 3, 1)\<close>, which are April 1 of 1975 and of 1974, finds the date 693520
  days before its anchor, clamps that to 0 and returns moon 1, day 1, weekday Dali,
  cycle 28074.
\<close>

theorem two_digit_year_position:
  "msPerDay * MakeDay 75 5 15 = - 59786121600000 \<and>
   validTime (- 59786121600000) \<and>
   getUTCFullYear (- 59786121600000) = 75 \<and>
   \<not> spec_isIrregular (- 59786121600000) \<and>
   spec_phaseYear (- 59786121600000) = 75 \<and>
   spec_daysSinceEpoch (- 59786121600000) = 75 \<and>
   spec_adjustedDay (- 59786121600000) = 75 \<and>
   spec_position (- 59786121600000) = (3, 20, Some ''Limi'', 28075) \<and>
   Date_UTC 75 3 1 = Some 165542400000 \<and>
   Date_UTC 74 3 1 = Some 134006400000 \<and>
   tm_daysSinceNewYear (- 59786121600000) = Some (- 693520) \<and>
   toThirteenMoonDate (Some (- 59786121600000)) =
     Inr \<lparr> moonNumber = 1, moonName = ''Magnetic'', dayOfMoon = 1,
           galacticSignature = ''Red Dragon'', arc = PrePhi, dayOfYear = 1,
           isDayOutOfTime = False, isHunabKu = False, weekday = Some ''Dali'',
           totalCycles = 28074 \<rparr>"
proof -
  have c1: "msPerDay * MakeDay 75 5 15 = - 59786121600000" by code_simp
  have c2: "validTime (- 59786121600000)" by (simp add: validTime_def maxTime_def)
  have c3: "getUTCFullYear (- 59786121600000) = 75" by code_simp
  have c4: "\<not> spec_isIrregular (- 59786121600000)" by code_simp
  have c5: "spec_phaseYear (- 59786121600000) = 75" by code_simp
  have c6: "spec_daysSinceEpoch (- 59786121600000) = 75" by code_simp
  have c7: "spec_adjustedDay (- 59786121600000) = 75" by code_simp
  have c8: "spec_position (- 59786121600000) = (3, 20, Some ''Limi'', 28075)" by code_simp
  have c9: "Date_UTC 75 3 1 = Some 165542400000" by code_simp
  have c10: "Date_UTC 74 3 1 = Some 134006400000" by code_simp
  have c11: "tm_daysSinceNewYear (- 59786121600000) = Some (- 693520)" by code_simp
  have nd: "\<not> tm_isDayOutOfTime (- 59786121600000)" by code_simp
  have nh: "\<not> tm_isHunabKu (- 59786121600000)" by code_simp
  have a: "tm_adjustedDay (- 59786121600000) = Some 0" by code_simp
  have y: "tm_totalCycles (- 59786121600000) = 28074" by code_simp
  have "toThirteenMoonDate (Some (- 59786121600000)) =
     Inr \<lparr> moonNumber = 1, moonName = ''Magnetic'', dayOfMoon = 1,
           galacticSignature = ''Red Dragon'', arc = PrePhi, dayOfYear = 1,
           isDayOutOfTime = False, isHunabKu = False, weekday = Some ''Dali'',
           totalCycles = 28074 \<rparr>"
    by (simp add: toThirteenMoonDate_def toThirteenMoonDate_ms_regular [OF nd nh a] y
        THIRTEEN_MOONS_def mkMoon_def THIRTEEN_MOON_WEEKDAYS_def)
  then show ?thesis using c1 c2 c3 c4 c5 c6 c7 c8 c9 c10 c11 by simp
qed

end
